theory Spec2Isabelle
  imports Main "HOL-Library.Product_Lexorder"
begin

section \<open>Python strings and lists\<close>

text \<open>
  The client is Python 2 code working on byte strings. A string is a \<open>char list\<close>;
  the characters that have no printable form are named here.
\<close>

definition TAB :: char where "TAB = CHR 0x09"
definition LF :: char where "LF = CHR 0x0A"
definition VT :: char where "VT = CHR 0x0B"
definition FF :: char where "FF = CHR 0x0C"
definition CR :: char where "CR = CHR 0x0D"
definition DQUOTE :: char where "DQUOTE = CHR 0x22"
definition BACKSLASH :: char where "BACKSLASH = CHR 0x5C"

text \<open>The characters \<open>str.strip()\<close> removes: space, tab, newline, vertical tab, form feed,
  carriage return.\<close>

definition is_space :: "char \<Rightarrow> bool" where
  "is_space c = (c = CHR '' '' \<or> c = TAB \<or> c = LF \<or> c = VT \<or> c = FF \<or> c = CR)"

definition py_lstrip :: "string \<Rightarrow> string" where
  "py_lstrip s = dropWhile is_space s"

definition py_rstrip :: "string \<Rightarrow> string" where
  "py_rstrip s = rev (dropWhile is_space (rev s))"

definition py_strip :: "string \<Rightarrow> string" where
  "py_strip s = py_lstrip (py_rstrip s)"

text \<open>\<open>s.startswith(p)\<close>\<close>

definition startswith :: "string \<Rightarrow> string \<Rightarrow> bool" where
  "startswith s p = (take (length p) s = p)"

text \<open>\<open>sub in s\<close>: \<open>sub\<close> occurs in \<open>s\<close> as a contiguous substring.\<close>

fun py_in :: "string \<Rightarrow> string \<Rightarrow> bool" where
  "py_in sub [] = (sub = [])"
| "py_in sub (c # s) = (startswith (c # s) sub \<or> py_in sub s)"

text \<open>\<open>s.split(sep)\<close> for a separator of one character: every occurrence of the separator
  ends a field, so two separators in a row give an empty field and \<open>"".split(sep)\<close> is
  \<open>[""]\<close>.\<close>

fun py_split :: "char \<Rightarrow> string \<Rightarrow> string list" where
  "py_split sep [] = [[]]"
| "py_split sep (c # cs) =
     (if c = sep then [] # py_split sep cs
      else (case py_split sep cs of
              [] \<Rightarrow> [[c]]
            | w # ws \<Rightarrow> (c # w) # ws))"

text \<open>\<open>s.split()\<close> without a separator: the maximal runs of non-whitespace characters.
  The source never calls it; it is here to state what "whitespace-separated token" means.\<close>

fun py_split_ws_from :: "string \<Rightarrow> string \<Rightarrow> string list" where
  "py_split_ws_from cur [] = (if cur = [] then [] else [rev cur])"
| "py_split_ws_from cur (c # cs) =
     (if is_space c then (if cur = [] then py_split_ws_from [] cs
                          else rev cur # py_split_ws_from [] cs)
      else py_split_ws_from (c # cur) cs)"

definition py_split_ws :: "string \<Rightarrow> string list" where
  "py_split_ws s = py_split_ws_from [] s"

text \<open>\<open>s.replace(a, b)\<close> for single characters.\<close>

definition py_replace :: "char \<Rightarrow> char \<Rightarrow> string \<Rightarrow> string" where
  "py_replace a b s = map (\<lambda>c. if c = a then b else c) s"

text \<open>\<open>s.splitlines()\<close> of a byte string: a line ends at \<open>\n\<close>, \<open>\r\n\<close> or \<open>\r\<close>; the line
  ends are dropped and a final line end opens no further line.\<close>

fun py_splitlines_from :: "string \<Rightarrow> string \<Rightarrow> string list" where
  "py_splitlines_from cur [] = (if cur = [] then [] else [rev cur])"
| "py_splitlines_from cur (c # cs) =
     (if c = LF then rev cur # py_splitlines_from [] cs
      else if c = CR then
        (case cs of
           [] \<Rightarrow> [rev cur]
         | d # ds \<Rightarrow> if d = LF then rev cur # py_splitlines_from [] ds
                     else rev cur # py_splitlines_from [] cs)
      else py_splitlines_from (c # cur) cs)"

definition py_splitlines :: "string \<Rightarrow> string list" where
  "py_splitlines s = py_splitlines_from [] s"

text \<open>What stops a call: \<open>die()\<close> after a failed command (the process exits), and the
  exceptions the code can raise.\<close>

datatype failure = Died "string list" | IndexError | ValueError

text \<open>\<open>xs[i]\<close> for \<open>i \<ge> 0\<close>: raises IndexError out of range.\<close>

definition py_index :: "'a list \<Rightarrow> nat \<Rightarrow> failure + 'a" where
  "py_index xs i = (if i < length xs then Inr (xs ! i) else Inl IndexError)"

text \<open>Truth value of an optional string: \<open>None\<close> and \<open>""\<close> are false.\<close>

definition truthy :: "string option \<Rightarrow> bool" where
  "truthy v = (case v of None \<Rightarrow> False | Some s \<Rightarrow> s \<noteq> [])"

text \<open>The string held by an optional string; read only where the value is true.\<close>

definition str_of :: "string option \<Rightarrow> string" where
  "str_of v = (case v of None \<Rightarrow> [] | Some s \<Rightarrow> s)"

definition bind :: "failure + 'a \<Rightarrow> ('a \<Rightarrow> failure + 'b) \<Rightarrow> failure + 'b" where
  "bind m f = (case m of Inl e \<Rightarrow> Inl e | Inr x \<Rightarrow> f x)"

section \<open>Running git\<close>

text \<open>
  The repository and the git executable are the environment of the client. A command is
  its argument vector; running it gives an exit status and the captured output, held as
  the list of its lines with their line ends (what \<open>readlines()\<close> returns; \<open>read()\<close> is
  their concatenation).
\<close>

type_synonym proc_output = "int \<times> string list"
type_synonym runner = "string list \<Rightarrow> proc_output"

text \<open>
  Modelled from the spec: \<open>rbtools.utils.process.execute\<close> is imported by the client and
  is not part of the source at hand. Section 6 of the specification describes it as
  running a command, capturing its output, optionally split into lines, with a mode that
  suppresses error propagation and returns an empty or nil result; section 5 says a
  failure is otherwise fatal. The variants below are the flag combinations the client
  uses.
\<close>

definition execute :: "runner \<Rightarrow> string list \<Rightarrow> failure + string" where
  "execute run cmd =
     (case run cmd of (rc, ls) \<Rightarrow> if rc \<noteq> 0 then Inl (Died cmd) else Inr (concat ls))"

definition execute_split_lines :: "runner \<Rightarrow> string list \<Rightarrow> failure + string list" where
  "execute_split_lines run cmd =
     (case run cmd of (rc, ls) \<Rightarrow> if rc \<noteq> 0 then Inl (Died cmd) else Inr ls)"

text \<open>\<open>ignore_errors=True\<close>: the output is returned whatever the exit status.\<close>

definition execute_ignore_errors :: "runner \<Rightarrow> string list \<Rightarrow> string" where
  "execute_ignore_errors run cmd = concat (snd (run cmd))"

text \<open>\<open>ignore_errors=True, none_on_ignored_error=True\<close>: \<open>None\<close> after a failure.\<close>

definition execute_none_on_error :: "runner \<Rightarrow> string list \<Rightarrow> string option" where
  "execute_none_on_error run cmd =
     (case run cmd of (rc, ls) \<Rightarrow> if rc \<noteq> 0 then None else Some (concat ls))"

definition execute_split_lines_none_on_error :: "runner \<Rightarrow> string list \<Rightarrow> string list option" where
  "execute_split_lines_none_on_error run cmd =
     (case run cmd of (rc, ls) \<Rightarrow> if rc \<noteq> 0 then None else Some ls)"

section \<open>The client object\<close>

record options =
  parent_branch :: "string option"
  guess_summary :: bool
  summary :: "string option"
  guess_description :: bool
  description :: "string option"
  target_people :: "string option"
  target_groups :: "string option"

record git_client =
  options :: options
  git :: string
  rev_range_for_diff :: "(string \<times> string) option"
  type :: string
  upstream_branch :: string
  head_ref :: string
  merge_base :: string

section \<open>\<open>is_valid_version\<close>\<close>

definition is_valid_version :: "int \<times> int \<times> int \<Rightarrow> int \<times> int \<times> int \<Rightarrow> bool" where
  "is_valid_version actual expected =
     (case actual of (a0, a1, a2) \<Rightarrow> case expected of (e0, e1, e2) \<Rightarrow>
        (a0 > e0) \<or>
        (a0 = e0 \<and> a1 > e1) \<or>
        (a0 = e0 \<and> a1 = e1 \<and> a2 \<ge> e2))"

section \<open>\<open>make_svn_diff\<close>\<close>

text \<open>The local variables \<open>diff_data\<close>, \<open>filename\<close> and \<open>newfile\<close> of \<open>make_svn_diff\<close>; its
  fourth, \<open>rev\<close>, is written \<open>revno\<close> below (\<open>rev\<close> is list reversal in HOL).\<close>

record svn_diff_state =
  diff_data :: string
  filename :: string
  newfile :: bool

text \<open>The body of the loop: one line of the git diff.\<close>

definition svn_diff_line :: "string \<Rightarrow> svn_diff_state \<Rightarrow> string \<Rightarrow> failure + svn_diff_state" where
  "svn_diff_line revno st line =
     (if startswith line ''diff '' then
        bind (py_index (py_split CHR '' '' line) 2) (\<lambda>info2.
          Inr (st\<lparr>diff_data := diff_data st @ ''Index: '' @ info2 @ [LF]
                                  @ replicate 67 CHR ''='' @ [LF]\<rparr>))
      else if startswith line ''index '' then Inr st
      else if py_strip line = ''--- /dev/null'' then Inr (st\<lparr>newfile := True\<rparr>)
      else if startswith line ''--- '' then
        Inr (st\<lparr>newfile := False,
                diff_data := diff_data st @ ''--- '' @ py_strip (drop 4 line) @ [TAB]
                                @ ''(revision '' @ revno @ '')'' @ [LF]\<rparr>)
      else if startswith line ''+++ '' then
        (let fn = py_strip (drop 4 line) in
         if newfile st then
           Inr (st\<lparr>filename := fn,
                   diff_data := diff_data st @ ''--- '' @ fn @ [TAB] @ ''(revision 0)'' @ [LF]
                                   @ ''+++ '' @ fn @ [TAB] @ ''(revision 0)'' @ [LF]\<rparr>)
         else
           Inr (st\<lparr>filename := fn,
                   diff_data := diff_data st @ ''+++ '' @ fn @ [TAB] @ ''(working copy)'' @ [LF]\<rparr>))
      else if startswith line ''new file mode'' then Inr st
      else if startswith line ''Binary files '' then
        Inr (st\<lparr>diff_data := diff_data st @ ''Cannot display: file marked as a binary type.'' @ [LF]
                                @ ''svn:mime-type = application/octet-stream'' @ [LF]\<rparr>)
      else Inr (st\<lparr>diff_data := diff_data st @ line\<rparr>))"

text \<open>The loop over \<open>diff_lines\<close>; an exception in the body ends it.\<close>

fun svn_diff_lines :: "string \<Rightarrow> svn_diff_state \<Rightarrow> string list \<Rightarrow> failure + svn_diff_state" where
  "svn_diff_lines revno st [] = Inr st"
| "svn_diff_lines revno st (line # ls) =
     bind (svn_diff_line revno st line) (\<lambda>st'. svn_diff_lines revno st' ls)"

definition make_svn_diff ::
  "runner \<Rightarrow> git_client \<Rightarrow> string \<Rightarrow> string list \<Rightarrow> failure + string option" where
  "make_svn_diff run self parent_branch' diff_lines =
     bind (execute run [git self, ''svn'', ''find-rev'', parent_branch']) (\<lambda>out.
       let revno = py_strip out in
       if revno = [] then Inr None
       else bind (svn_diff_lines revno \<lparr>diff_data = [], filename = [], newfile = False\<rparr> diff_lines)
              (\<lambda>st. Inr (Some (diff_data st))))"

section \<open>\<open>make_diff\<close>, \<open>_set_guesses\<close>, \<open>diff\<close> and \<open>diff_between_revisions\<close>\<close>

definition make_diff :: "runner \<Rightarrow> git_client \<Rightarrow> string \<Rightarrow> string \<Rightarrow> failure + string option" where
  "make_diff run self ancestor commit =
     (let rev_range = (if commit \<noteq> [] then ancestor @ ''..'' @ commit else ancestor) in
      if type self = ''svn'' then
        bind (execute_split_lines run
                [git self, ''diff'', ''--no-color'', ''--no-prefix'', ''--no-ext-diff'',
                 ''-r'', ''-u'', rev_range])
          (\<lambda>diff_lines. make_svn_diff run self ancestor diff_lines)
      else if type self = ''git'' then
        bind (execute run
                [git self, ''diff'', ''--no-color'', ''--full-index'', ''--no-ext-diff'',
                 ''--ignore-submodules'', rev_range])
          (\<lambda>d. Inr (Some d))
      else Inr None)"

text \<open>\<open>_set_guesses\<close> fills \<open>options.summary\<close> and \<open>options.description\<close>; the changed client
  is returned. \<open>split(' ', 2)[0]\<close> is the text before the first space.\<close>

definition set_guesses :: "runner \<Rightarrow> git_client \<Rightarrow> string \<times> string \<Rightarrow> failure + git_client" where
  "set_guesses run self rev_range =
     (case rev_range of (start_rev, end_rev) \<Rightarrow>
        bind (if guess_summary (options self) \<and> \<not> truthy (summary (options self)) then
                bind (execute run [git self, ''rev-list'', ''--reverse'', ''--parents'',
                                   ''^'' @ start_rev, head_ref self])
                  (\<lambda>out.
                     let first_commit = takeWhile (\<lambda>c. c \<noteq> CHR '' '') out;
                         s = execute_ignore_errors run
                               [git self, ''log'', ''--no-merges'', ''--pretty=format:%s'',
                                first_commit, ''^'' @ first_commit @ ''^'']
                     in Inr (self\<lparr>options := (options self)
                               \<lparr>summary := Some (py_strip (py_replace LF CHR '' '' s))\<rparr>\<rparr>))
              else Inr self)
          (\<lambda>self.
             if guess_description (options self) \<and> \<not> truthy (description (options self)) then
               Inr (self\<lparr>options := (options self)
                      \<lparr>description := Some (py_strip (execute_ignore_errors run
                           [git self, ''log'', ''--reverse'', ''--pretty=format:%s%n%n%b'',
                            start_rev @ ''..'' @ end_rev]))\<rparr>\<rparr>)
             else Inr self))"

text \<open>\<open>diff\<close> returns the pair \<open>(diff_lines, parent_diff_lines)\<close>; the client it has changed
  (\<open>merge_base\<close>, \<open>rev_range_for_diff\<close>, the guessed options) is returned with it.\<close>

definition diff ::
  "runner \<Rightarrow> git_client \<Rightarrow> string list
     \<Rightarrow> failure + ((string option \<times> string option) \<times> git_client)" where
  "diff run self args =
     (let parent_branch = parent_branch (options self);
          head_ref = (if head_ref self \<noteq> [] then head_ref self else ''HEAD'') in
      bind (execute run [git self, ''merge-base'', upstream_branch self, head_ref]) (\<lambda>out.
        let self = self\<lparr>merge_base := py_strip out\<rparr> in
        bind (if truthy parent_branch then
                bind (make_diff run self (str_of parent_branch) []) (\<lambda>diff_lines.
                bind (make_diff run self (merge_base self) (str_of parent_branch))
                  (\<lambda>parent_diff_lines. Inr (diff_lines, parent_diff_lines)))
              else
                bind (make_diff run self (merge_base self) head_ref) (\<lambda>diff_lines.
                  Inr (diff_lines, None)))
          (\<lambda>lines.
             let rev_range = (if truthy parent_branch then str_of parent_branch
                              else merge_base self, ''HEAD'');
                 self = self\<lparr>rev_range_for_diff := Some rev_range\<rparr> in
             bind (set_guesses run self rev_range) (\<lambda>self. Inr (lines, self)))))"

text \<open>\<open>r1, r2 = revision_range.split(":")\<close> raises ValueError unless there are exactly two
  fields.\<close>

definition diff_between_revisions ::
  "runner \<Rightarrow> git_client \<Rightarrow> string \<Rightarrow> string list \<Rightarrow> 'info
     \<Rightarrow> failure + ((string option \<times> string option) \<times> git_client)" where
  "diff_between_revisions run self revision_range args repository_info =
     (let head_ref = (if head_ref self \<noteq> [] then head_ref self else ''HEAD'') in
      bind (execute run [git self, ''merge-base'', upstream_branch self, head_ref]) (\<lambda>out.
        let self = self\<lparr>merge_base := py_strip out\<rparr> in
        if \<not> py_in '':'' revision_range then
          bind (execute run [git self, ''branch'', ''-r'', ''--contains'', revision_range])
            (\<lambda>pdiff_required.
          bind (if pdiff_required = [] then make_diff run self (merge_base self) revision_range
                else Inr None)
            (\<lambda>parent_diff_lines.
          let self = self\<lparr>rev_range_for_diff := Some (revision_range, ''HEAD'')\<rparr> in
          bind (set_guesses run self (revision_range, ''HEAD'')) (\<lambda>self.
          bind (make_diff run self revision_range []) (\<lambda>diff_lines.
            Inr ((diff_lines, parent_diff_lines), self)))))
        else
          (case py_split CHR '':'' revision_range of
             [r1, r2] \<Rightarrow>
               bind (execute run [git self, ''branch'', ''-r'', ''--contains'', r1])
                 (\<lambda>pdiff_required.
               bind (if pdiff_required = [] then make_diff run self (merge_base self) r1
                     else Inr None)
                 (\<lambda>parent_diff_lines.
               let self = self\<lparr>rev_range_for_diff := Some (r1, r2)\<rparr> in
               bind (set_guesses run self (r1, r2)) (\<lambda>self.
               bind (make_diff run self r1 r2) (\<lambda>diff_lines.
                 Inr ((diff_lines, parent_diff_lines), self)))))
           | _ \<Rightarrow> Inl ValueError)))"

section \<open>\<open>update_commits_with_reviewer_info\<close>\<close>

text \<open>
  \<open>git notes edit\<close> writes to the repository, so here the repository is a state \<open>'w\<close>.
  The commands that only read it (\<open>rev-list\<close>, \<open>notes show\<close>) are answered by \<open>query\<close> in
  the current state; a command run with environment variables, which may write, is
  answered by \<open>update\<close> and gives the next state.
\<close>

record 'w repository =
  query :: "'w \<Rightarrow> runner"
  update :: "'w \<Rightarrow> (string \<times> string) list \<Rightarrow> string list \<Rightarrow> proc_output \<times> 'w"

text \<open>
  Modelled from the spec: \<open>execute\<close> with \<open>env=...\<close>, \<open>ignore_errors=True\<close> and
  \<open>none_on_ignored_error=True\<close>, as above, for a command that may change the repository.
\<close>

definition execute_env_none_on_error ::
  "'w repository \<Rightarrow> 'w \<Rightarrow> (string \<times> string) list \<Rightarrow> string list \<Rightarrow> string option \<times> 'w" where
  "execute_env_none_on_error repo w env cmd =
     (case update repo w env cmd of
        ((rc, ls), w') \<Rightarrow> (if rc \<noteq> 0 then None else Some (concat ls), w'))"

text \<open>The text built from \<open>target_people\<close>, \<open>target_groups\<close> and the review URL.\<close>

definition build_reviewed_by :: "options \<Rightarrow> string \<Rightarrow> string" where
  "build_reviewed_by opts review_url =
     ''Reviewed-By:''
     @ (if truthy (target_people opts) then '' '' @ str_of (target_people opts) else [])
     @ (if truthy (target_people opts) \<and> truthy (target_groups opts) then '' and'' else [])
     @ (if truthy (target_groups opts) then '' groups:'' @ str_of (target_groups opts) else [])
     @ '' <'' @ review_url @ ''>''"

definition perlcmd :: "string \<Rightarrow> string" where
  "perlcmd reviewed_by =
     ''print unless /Reviewed-By: /i; if (eof) { print; print q{'' @ reviewed_by @ ''} }''"

definition git_editor_cmd :: "string \<Rightarrow> string" where
  "git_editor_cmd reviewed_by =
     ''sh -c '' @ [DQUOTE] @ ''perl -nli -e '' @ [BACKSLASH, DQUOTE] @ perlcmd reviewed_by
     @ [BACKSLASH, DQUOTE] @ '' '' @ [BACKSLASH, DQUOTE] @ ''$1'' @ [BACKSLASH, DQUOTE]
     @ [DQUOTE]"

text \<open>The final loop: one \<open>git notes edit\<close> for each commit, counting those that succeed.\<close>

fun edit_commits ::
  "'w repository \<Rightarrow> 'w \<Rightarrow> git_client \<Rightarrow> string \<Rightarrow> string list \<Rightarrow> nat \<Rightarrow> nat \<times> 'w" where
  "edit_commits repo w self editor [] num_successful_updates = (num_successful_updates, w)"
| "edit_commits repo w self editor (commit # commits) num_successful_updates =
     (case execute_env_none_on_error repo w [(''GIT_EDITOR'', editor)]
             [git self, ''notes'', ''edit'', commit] of
        (output, w') \<Rightarrow>
          edit_commits repo w' self editor commits
            (if output \<noteq> None then num_successful_updates + 1 else num_successful_updates))"

text \<open>The first line of the notes of the oldest commit that starts with \<open>Reviewed-By: \<close> and
  contains the review URL: the line at which the loop over \<open>output.splitlines()\<close> breaks.\<close>

definition existing_reviewed_by :: "string option \<Rightarrow> string \<Rightarrow> string option" where
  "existing_reviewed_by output review_url =
     (if truthy output then
        find (\<lambda>line. startswith line ''Reviewed-By: '' \<and> py_in review_url line)
          (py_splitlines (str_of output))
      else None)"

definition update_commits_with_reviewer_info ::
  "'w repository \<Rightarrow> 'w \<Rightarrow> git_client \<Rightarrow> options \<Rightarrow> string \<Rightarrow> nat \<times> 'w" where
  "update_commits_with_reviewer_info repo w self opts review_url =
     (case rev_range_for_diff self of
        None \<Rightarrow> (0, w)
      | Some (r1, r2) \<Rightarrow>
          (case execute_split_lines_none_on_error (query repo w)
                  [git self, ''rev-list'', ''--reverse'', r1 @ ''..'' @ r2] of
             None \<Rightarrow> (0, w)
           | Some [] \<Rightarrow> (0, w)
           | Some (c # cs) \<Rightarrow>
               (let commits = map py_strip (c # cs);
                    reviewed_by = build_reviewed_by opts review_url;
                    output = execute_none_on_error (query repo w)
                               [git self, ''notes'', ''show'', py_strip c]
                in case existing_reviewed_by output review_url of
                     Some line \<Rightarrow>
                       edit_commits repo w self (git_editor_cmd line) (tl commits) 1
                   | None \<Rightarrow>
                       edit_commits repo w self (git_editor_cmd reviewed_by) commits 0)))"

section \<open>\<open>_github_paths\<close>\<close>

text \<open>
  The regular expressions of \<open>_github_paths\<close>, with the matching order of Python's \<open>re\<close>:
  a pattern maps a position (the text still to match, with the groups captured so far)
  to the positions it can end at, the preferred one first. \<open>Dot\<close> is \<open>.\<close>, which matches
  every character except a newline; \<open>NoneOf\<close> is a negated class; \<open>Opt\<close> and \<open>Plus\<close> are the
  greedy \<open>?\<close> and \<open>+\<close>; \<open>StarLazy\<close> is \<open>*?\<close>; \<open>Eos\<close> is \<open>$\<close>, which matches at the end and before
  a newline that ends the text.
\<close>

datatype regex =
    Eps
  | Lit char
  | Dot
  | NoneOf "char list"
  | Cat regex regex
  | Or regex regex
  | Opt regex
  | Plus regex
  | StarLazy regex
  | Group string regex
  | Eos

type_synonym position = "string \<times> (string \<times> string) list"

text \<open>Repetition stops when an iteration matches the empty string; \<open>n\<close> bounds the number of
  iterations by the length of the text left.\<close>

fun star_greedy :: "(position \<Rightarrow> position list) \<Rightarrow> nat \<Rightarrow> position \<Rightarrow> position list" where
  "star_greedy f 0 p = [p]"
| "star_greedy f (Suc n) p =
     concat (map (star_greedy f n) (filter (\<lambda>q. length (fst q) < length (fst p)) (f p))) @ [p]"

fun star_lazy :: "(position \<Rightarrow> position list) \<Rightarrow> nat \<Rightarrow> position \<Rightarrow> position list" where
  "star_lazy f 0 p = [p]"
| "star_lazy f (Suc n) p =
     p # concat (map (star_lazy f n) (filter (\<lambda>q. length (fst q) < length (fst p)) (f p)))"

fun matches :: "regex \<Rightarrow> position \<Rightarrow> position list" where
  "matches Eps p = [p]"
| "matches (Lit c) p =
     (case fst p of [] \<Rightarrow> [] | d # t \<Rightarrow> if d = c then [(t, snd p)] else [])"
| "matches Dot p =
     (case fst p of [] \<Rightarrow> [] | d # t \<Rightarrow> if d \<noteq> LF then [(t, snd p)] else [])"
| "matches (NoneOf cs) p =
     (case fst p of [] \<Rightarrow> [] | d # t \<Rightarrow> if d \<notin> set cs then [(t, snd p)] else [])"
| "matches (Cat a b) p = concat (map (matches b) (matches a p))"
| "matches (Or a b) p = matches a p @ matches b p"
| "matches (Opt a) p = matches a p @ [p]"
| "matches (Plus a) p = concat (map (\<lambda>q. star_greedy (matches a) (length (fst q)) q) (matches a p))"
| "matches (StarLazy a) p = star_lazy (matches a) (length (fst p)) p"
| "matches (Group name a) p =
     map (\<lambda>q. (fst q, (name, take (length (fst p) - length (fst q)) (fst p)) # snd q))
       (matches a p)"
| "matches Eos p = (if fst p = [] \<or> fst p = [LF] then [p] else [])"

text \<open>\<open>re.match\<close>: the first way to match at the start of the string, as its groups.\<close>

definition re_match :: "regex \<Rightarrow> string \<Rightarrow> (string \<times> string) list option" where
  "re_match r s = (case matches r (s, []) of [] \<Rightarrow> None | p # _ \<Rightarrow> Some (snd p))"

text \<open>\<open>m.group(name)\<close>; a group that took no part in the match is \<open>None\<close>.\<close>

definition group :: "(string \<times> string) list \<Rightarrow> string \<Rightarrow> string option" where
  "group m name = map_of m name"

text \<open>A run of pattern characters, where \<open>.\<close> is the wildcard and the others are literal.\<close>

fun pat :: "string \<Rightarrow> regex" where
  "pat [] = Eps"
| "pat (c # cs) = Cat (if c = CHR ''.'' then Dot else Lit c) (pat cs)"

text \<open>The pattern of \<open>_github_paths\<close>: the alternatives for the scheme and host, group 1,
  where \<open>userinfo\<close> is the group \<open>([^@]+@)\<close>, and then \<open>(?P<repos>.*?)(.git)?$\<close>.\<close>

definition userinfo :: "string \<Rightarrow> regex" where
  "userinfo name = Group name (Cat (Plus (NoneOf ''@'')) (Lit CHR ''@''))"

definition github_prefix_re :: regex where
  "github_prefix_re =
     Group ''1''
       (Or (Cat (pat ''http://'')
              (Cat (Opt (userinfo ''2''))
                   (pat ''github.com/'')))
       (Or (Cat (pat ''https://'')
              (Cat (Opt (userinfo ''3''))
                   (pat ''github.com/'')))
       (Or (pat ''git://github.com/'')
           (pat ''git@github.com:''))))"

definition github_suffix_re :: regex where
  "github_suffix_re =
     Cat (Group ''repos'' (StarLazy Dot)) (Cat (Opt (Group ''5'' (pat ''.git''))) Eos)"

definition github_re :: regex where
  "github_re = Cat github_prefix_re github_suffix_re"

text \<open>\<open>_github_paths\<close> returns the URL itself, a string, when it does not match, and a list of
  strings when it does.\<close>

datatype paths = Url string | UrlList "string list"

definition github_paths :: "string \<Rightarrow> paths" where
  "github_paths url =
     (case re_match github_re url of
        None \<Rightarrow> Url url
      | Some m \<Rightarrow>
          (let repos = str_of (group m ''repos'') in
           UrlList [''http://github.com/'' @ repos,
                    ''http://github.com/'' @ repos @ ''.git'',
                    ''https://github.com/'' @ repos,
                    ''https://github.com/'' @ repos @ ''.git'',
                    ''git://github.com/'' @ repos,
                    ''git://github.com/'' @ repos @ ''.git'',
                    ''git@github.com:'' @ repos,
                    ''git@github.com:'' @ repos @ ''.git'']))"

section \<open>Notions used in the statements\<close>

text \<open>The suffixes of a list, the longest first: the positions that \<open>.*?\<close> tries, in order.\<close>

fun remainders :: "string \<Rightarrow> string list" where
  "remainders [] = [[]]"
| "remainders (c # rest) = (c # rest) # remainders rest"

text \<open>The eight forms of a repository path, in the order of the list \<open>_github_paths\<close> builds.\<close>

definition eight_forms :: "string \<Rightarrow> string list" where
  "eight_forms repos =
     [''http://github.com/'' @ repos, ''http://github.com/'' @ repos @ ''.git'',
      ''https://github.com/'' @ repos, ''https://github.com/'' @ repos @ ''.git'',
      ''git://github.com/'' @ repos, ''git://github.com/'' @ repos @ ''.git'',
      ''git@github.com:'' @ repos, ''git@github.com:'' @ repos @ ''.git'']"

section \<open>Example inputs\<close>

text \<open>Concrete inputs at which the properties below are evaluated: a repository that answers
  each git command with a fixed text, and a client.\<close>

definition last_arg :: "string list \<Rightarrow> string" where
  "last_arg cmd = (case rev cmd of [] \<Rightarrow> [] | a # _ \<Rightarrow> a)"

definition demo_run :: runner where
  "demo_run cmd =
     (case cmd of
        g # sub # rest \<Rightarrow>
          if sub = ''merge-base'' then (0, [''mb0'' @ [LF]])
          else if sub = ''svn'' then (0, if last_arg cmd = ''mb0'' then [] else [''1234'' @ [LF]])
          else if sub = ''branch'' then
            (0, if last_arg cmd = ''pushed'' then [''  origin/master'' @ [LF]] else [])
          else if sub = ''diff'' then (0, [''+changes of '' @ last_arg cmd @ [LF]])
          else if sub = ''rev-list'' then (0, [''c1 c0'' @ [LF], ''c2 c1'' @ [LF]])
          else if sub = ''log'' then (0, [''Fix the parser'' @ [LF]])
          else (1, [])
      | _ \<Rightarrow> (1, []))"

definition demo_options :: options where
  "demo_options = \<lparr>parent_branch = None, guess_summary = False, summary = None,
     guess_description = False, description = None,
     target_people = Some ''alice'', target_groups = None\<rparr>"

definition demo_client :: git_client where
  "demo_client = \<lparr>options = demo_options, git = ''git'', rev_range_for_diff = None,
     type = ''git'', upstream_branch = ''origin/master'', head_ref = ''refs/heads/topic'',
     merge_base = []\<rparr>"

definition demo_parent_client :: git_client where
  "demo_parent_client =
     demo_client\<lparr>options := demo_options\<lparr>parent_branch := Some ''feature-base'',
                                            guess_summary := True\<rparr>\<rparr>"

definition demo_svn_client :: git_client where
  "demo_svn_client = demo_client\<lparr>type := ''svn''\<rparr>"

text \<open>A repository for the annotator: its state is the notes of each commit and the list of
  commits on which \<open>git notes edit\<close> has run. The editor it runs drops the lines with
  \<open>Reviewed-By: \<close> and appends the text the editor command prints.\<close>

record demo_world =
  note_of :: "(string \<times> string) list"
  edits :: "string list"

text \<open>The text between \<open>print q{\<close> and the closing brace of the editor command.\<close>

definition editor_prefix :: string where
  "editor_prefix = ''sh -c '' @ [DQUOTE] @ ''perl -nli -e '' @ [BACKSLASH, DQUOTE]
     @ ''print unless /Reviewed-By: /i; if (eof) { print; print q{''"

definition editor_text :: "string \<Rightarrow> string" where
  "editor_text ed =
     take (length ed - length (git_editor_cmd [])) (drop (length editor_prefix) ed)"

definition demo_repo :: "demo_world repository" where
  "demo_repo = \<lparr>
     query = (\<lambda>w cmd.
        case cmd of
          [g, sub, a, b] \<Rightarrow>
            if sub = ''rev-list'' then (0, [''c1'' @ [LF], ''c2'' @ [LF]])
            else if sub = ''notes'' \<and> a = ''show'' then
              (case map_of (note_of w) b of
                 None \<Rightarrow> (1, [''error: No note found for object '' @ b @ ''.'' @ [LF]])
               | Some n \<Rightarrow> (0, [n]))
            else (1, [])
        | _ \<Rightarrow> (1, [])),
     update = (\<lambda>w env cmd.
        case cmd of
          [g, sub, a, b] \<Rightarrow>
            if sub = ''notes'' \<and> a = ''edit'' then
              (case map_of env ''GIT_EDITOR'' of
                 None \<Rightarrow> ((1, []), w)
               | Some ed \<Rightarrow>
                   ((0, []),
                    w\<lparr>note_of := (b, concat (map (\<lambda>l. l @ [LF])
                                    (filter (\<lambda>l. \<not> py_in ''Reviewed-By: '' l)
                                       (py_splitlines (str_of (map_of (note_of w) b)))))
                                  @ editor_text ed @ [LF])
                                 # filter (\<lambda>kv. fst kv \<noteq> b) (note_of w),
                      edits := edits w @ [b]\<rparr>))
            else ((1, []), w)
        | _ \<Rightarrow> ((1, []), w))\<rparr>"

definition demo_world0 :: demo_world where
  "demo_world0 = \<lparr>note_of = [(''c2'', ''Tested on staging'' @ [LF])], edits = []\<rparr>"

definition demo_review_client :: git_client where
  "demo_review_client = demo_client\<lparr>rev_range_for_diff := Some (''mb0'', ''HEAD'')\<rparr>"

definition demo_world1 :: demo_world where
  "demo_world1 = snd (update_commits_with_reviewer_info demo_repo demo_world0 demo_review_client
                        demo_options ''http://rb/r/1'')"

section \<open>Properties\<close>

subsection \<open>Version comparison\<close>

text \<open>
  Claim C10. For all version triples, \<open>is_valid_version actual expected\<close> is true if and only
  if \<open>actual\<close> is greater than or equal to \<open>expected\<close> in the lexicographic order of the three
  components (the order of triples used here is the lexicographic one). The components are
  Python integers, so the statement covers the natural numbers.
\<close>

theorem is_valid_version_lexicographic:
  "is_valid_version actual expected \<longleftrightarrow> expected \<le> actual"
  by (cases actual; cases expected) (auto simp: is_valid_version_def less_eq_prod_def less_prod_def)

subsection \<open>Auxiliary facts about strings and the translation loop\<close>

lemma startswith_iff: "startswith s p \<longleftrightarrow> (\<exists>r. s = p @ r)"
  unfolding startswith_def
  by (metis append_eq_conv_conj append_take_drop_id)

lemma py_rstrip_Cons:
  "py_rstrip (c # r) = (if is_space c \<and> py_rstrip r = [] then [] else c # py_rstrip r)"
  by (auto simp: py_rstrip_def dropWhile_append)

lemma py_strip_Cons_nonspace: "\<not> is_space c \<Longrightarrow> py_strip (c # r) = c # py_rstrip r"
  by (simp add: py_strip_def py_lstrip_def py_rstrip_Cons)

lemma dev_null_not_diff:
  assumes "py_strip l = ''--- /dev/null''"
  shows "\<not> startswith l ''diff ''" and "\<not> startswith l ''index ''"
  using assms by (auto simp: startswith_iff py_strip_Cons_nonspace is_space_def TAB_def LF_def VT_def FF_def CR_def)

lemma dev_null_path:
  assumes "startswith l ''--- ''" "py_strip l = ''--- /dev/null''"
  shows "py_strip (drop 4 l) = ''/dev/null''"
proof -
  from assms(1) obtain r where l: "l = ''--- '' @ r" by (auto simp: startswith_iff)
  have ns: "\<not> is_space CHR ''-''" by (simp add: is_space_def TAB_def LF_def VT_def FF_def CR_def)
  from assms(2) have "py_rstrip r = ''/dev/null''"
    unfolding l by (simp add: py_strip_Cons_nonspace ns py_rstrip_Cons split: if_splits)
  then show ?thesis unfolding l by (simp add: py_strip_def py_lstrip_def is_space_def TAB_def LF_def VT_def FF_def CR_def)
qed

lemma svn_diff_lines_append:
  "svn_diff_lines revno st (xs @ ys) = bind (svn_diff_lines revno st xs) (\<lambda>st'. svn_diff_lines revno st' ys)"
  by (induction xs arbitrary: st) (auto simp: bind_def split: sum.splits)

lemma dev_null_not_diff': "py_strip l = ''--- /dev/null'' \<Longrightarrow> \<not> startswith l ''diff '' \<and> \<not> startswith l ''index ''"
  using dev_null_not_diff by blast

lemma plus_not_others:
  assumes "startswith l ''+++ ''"
  shows "\<not> startswith l ''diff ''" "\<not> startswith l ''index ''" "\<not> startswith l ''--- ''"
    "py_strip l \<noteq> ''--- /dev/null''"
  using assms by (auto simp: startswith_iff py_strip_Cons_nonspace is_space_def TAB_def LF_def VT_def FF_def CR_def)

lemma minus_not_others:
  assumes "startswith l ''--- ''"
  shows "\<not> startswith l ''diff ''" "\<not> startswith l ''index ''"
  using assms by (auto simp: startswith_iff)

lemma plus_line_new:
  assumes "startswith l2 ''+++ ''" and "newfile s"
  shows "svn_diff_line revno s l2 =
           Inr (s\<lparr>filename := py_strip (drop 4 l2),
                  diff_data := diff_data s
                     @ ''--- '' @ py_strip (drop 4 l2) @ [TAB] @ ''(revision 0)'' @ [LF]
                     @ ''+++ '' @ py_strip (drop 4 l2) @ [TAB] @ ''(revision 0)'' @ [LF]\<rparr>)"
  using plus_not_others[OF assms(1)] assms by (simp add: svn_diff_line_def Let_def)

lemma plus_line_old:
  assumes "startswith l2 ''+++ ''" and "\<not> newfile s"
  shows "svn_diff_line revno s l2 =
           Inr (s\<lparr>filename := py_strip (drop 4 l2),
                  diff_data := diff_data s
                     @ ''+++ '' @ py_strip (drop 4 l2) @ [TAB] @ ''(working copy)'' @ [LF]\<rparr>)"
  using plus_not_others[OF assms(1)] assms by (simp add: svn_diff_line_def Let_def)

subsection \<open>The translation loop and the text the translator returns\<close>

lemma bind_Inr_iff: "bind m f = Inr y \<longleftrightarrow> (\<exists>x. m = Inr x \<and> f x = Inr y)"
  by (cases m) (auto simp: bind_def)

lemma diff_data_grows_line:
  "svn_diff_line revno st l = Inr st' \<Longrightarrow> \<exists>e. diff_data st' = diff_data st @ e"
  by (auto simp: svn_diff_line_def bind_def Let_def split: if_splits sum.splits)

lemma diff_data_grows:
  "svn_diff_lines revno st ls = Inr st' \<Longrightarrow> \<exists>e. diff_data st' = diff_data st @ e"
proof (induction ls arbitrary: st)
  case Nil
  then show ?case by simp
next
  case (Cons l ls)
  from Cons.prems obtain s1 where s1: "svn_diff_line revno st l = Inr s1"
    and r: "svn_diff_lines revno s1 ls = Inr st'"
    by (auto simp: bind_def split: sum.splits)
  from diff_data_grows_line[OF s1] Cons.IH[OF r] show ?case by auto
qed

lemma svn_diff_line_cases:
  "(\<exists>st'. svn_diff_line revno st l = Inr st') \<or> svn_diff_line revno st l = Inl IndexError"
  by (auto simp: svn_diff_line_def bind_def py_index_def Let_def)

lemma svn_diff_lines_cases:
  "(\<exists>st'. svn_diff_lines revno st ls = Inr st') \<or> svn_diff_lines revno st ls = Inl IndexError"
proof (induction ls arbitrary: st)
  case Nil
  then show ?case by simp
next
  case (Cons l ls)
  show ?case
  proof (cases "svn_diff_line revno st l")
    case (Inl e)
    with svn_diff_line_cases[of revno st l] show ?thesis by (simp add: bind_def)
  next
    case (Inr s1)
    with Cons.IH[of s1] show ?thesis by (simp add: bind_def)
  qed
qed

lemma svn_diff_line_total:
  assumes "startswith l ''diff '' \<longrightarrow> 3 \<le> length (py_split CHR '' '' l)"
  shows "\<exists>st'. svn_diff_line revno st l = Inr st'"
  using assms by (auto simp: svn_diff_line_def bind_def py_index_def Let_def)

lemma svn_diff_lines_total:
  assumes "\<forall>l\<in>set ls. startswith l ''diff '' \<longrightarrow> 3 \<le> length (py_split CHR '' '' l)"
  shows "\<exists>st'. svn_diff_lines revno st ls = Inr st'"
  using assms
proof (induction ls arbitrary: st)
  case Nil
  then show ?case by simp
next
  case (Cons l ls)
  from Cons.prems svn_diff_line_total[of l revno st]
  obtain s1 where s1: "svn_diff_line revno st l = Inr s1" by auto
  from Cons.IH[of s1] Cons.prems obtain s2 where "svn_diff_lines revno s1 ls = Inr s2" by auto
  with s1 show ?case by (simp add: bind_def)
qed

lemma make_svn_diff_append:
  "make_svn_diff run self a (xs @ ys) =
     bind (execute run [git self, ''svn'', ''find-rev'', a]) (\<lambda>out.
       if py_strip out = [] then Inr None
       else bind (svn_diff_lines (py_strip out) \<lparr>diff_data = [], filename = [], newfile = False\<rparr> xs)
              (\<lambda>st. bind (svn_diff_lines (py_strip out) st ys) (\<lambda>st'. Inr (Some (diff_data st')))))"
  by (auto simp: make_svn_diff_def svn_diff_lines_append Let_def bind_def split: sum.splits)

lemma make_svn_diff_emit:
  assumes "\<And>revno st. \<exists>st'. svn_diff_lines revno st ls = Inr st' \<and> diff_data st' = diff_data st @ E revno"
  shows "make_svn_diff run self a (xs @ ls) =
     bind (execute run [git self, ''svn'', ''find-rev'', a]) (\<lambda>out.
       bind (make_svn_diff run self a xs) (\<lambda>r. Inr (map_option (\<lambda>d. d @ E (py_strip out)) r)))"
proof (cases "execute run [git self, ''svn'', ''find-rev'', a]")
  case (Inl e)
  then show ?thesis by (simp add: make_svn_diff_def bind_def)
next
  case (Inr out)
  show ?thesis
  proof (cases "py_strip out = []")
    case True
    with Inr show ?thesis by (simp add: make_svn_diff_def bind_def)
  next
    case False
    show ?thesis
    proof (cases "svn_diff_lines (py_strip out) \<lparr>diff_data = [], filename = [], newfile = False\<rparr> xs")
      case (Inl e)
      with Inr False show ?thesis
        by (simp add: make_svn_diff_def svn_diff_lines_append bind_def)
    next
      case st: (Inr st)
      from assms[of "py_strip out" st] obtain st' where
        "svn_diff_lines (py_strip out) st ls = Inr st'" "diff_data st' = diff_data st @ E (py_strip out)"
        by blast
      with Inr False st show ?thesis
        by (simp add: make_svn_diff_def svn_diff_lines_append bind_def)
    qed
  qed
qed

lemma make_svn_diff_emit_const:
  assumes "\<And>revno st. \<exists>st'. svn_diff_lines revno st ls = Inr st' \<and> diff_data st' = diff_data st @ E"
  shows "make_svn_diff run self a (xs @ ls) =
     bind (make_svn_diff run self a xs) (\<lambda>r. Inr (map_option (\<lambda>d. d @ E) r))"
proof -
  have "make_svn_diff run self a (xs @ ls) =
     bind (execute run [git self, ''svn'', ''find-rev'', a]) (\<lambda>out.
       bind (make_svn_diff run self a xs) (\<lambda>r. Inr (map_option (\<lambda>d. d @ E) r)))"
    by (rule make_svn_diff_emit[where E = "\<lambda>_. E"]) (rule assms)
  also have "\<dots> = bind (make_svn_diff run self a xs) (\<lambda>r. Inr (map_option (\<lambda>d. d @ E) r))"
    by (cases "execute run [git self, ''svn'', ''find-rev'', a]")
       (simp_all add: make_svn_diff_def bind_def)
  finally show ?thesis .
qed

lemma svn_diff_line_shift:
  "svn_diff_line revno (st\<lparr>diff_data := D @ diff_data st\<rparr>) l =
     map_sum id (\<lambda>s. s\<lparr>diff_data := D @ diff_data s\<rparr>) (svn_diff_line revno st l)"
  by (simp add: svn_diff_line_def bind_def Let_def py_index_def)

lemma svn_diff_lines_shift:
  "svn_diff_lines revno (st\<lparr>diff_data := D @ diff_data st\<rparr>) ls =
     map_sum id (\<lambda>s. s\<lparr>diff_data := D @ diff_data s\<rparr>) (svn_diff_lines revno st ls)"
proof (induction ls arbitrary: st)
  case Nil
  then show ?case by simp
next
  case (Cons l ls)
  show ?case
  proof (cases "svn_diff_line revno st l")
    case (Inl e)
    then show ?thesis by (simp add: svn_diff_line_shift bind_def)
  next
    case (Inr s1)
    then show ?thesis using Cons.IH[of s1] by (simp add: svn_diff_line_shift bind_def)
  qed
qed

lemma svn_diff_lines_from:
  "svn_diff_lines revno \<lparr>diff_data = D, filename = f, newfile = b\<rparr> ls =
     map_sum id (\<lambda>s. s\<lparr>diff_data := D @ diff_data s\<rparr>)
       (svn_diff_lines revno \<lparr>diff_data = [], filename = f, newfile = b\<rparr> ls)"
  using svn_diff_lines_shift[where revno = revno and D = D and ls = ls
      and st = "\<lparr>diff_data = [], filename = f, newfile = b\<rparr>"]
  by simp

subsection \<open>Headers of added and modified files\<close>

lemma make_svn_diff_section:
  assumes "\<And>revno st. svn_diff_lines revno st ls =
             Inr \<lparr>diff_data = diff_data st @ E revno, filename = F, newfile = B\<rparr>"
  shows "make_svn_diff run self a (xs @ ls @ ys) =
     bind (execute run [git self, ''svn'', ''find-rev'', a]) (\<lambda>out.
       bind (make_svn_diff run self a xs) (\<lambda>r.
         case r of
           None \<Rightarrow> Inr None
         | Some dx \<Rightarrow>
             bind (svn_diff_lines (py_strip out) \<lparr>diff_data = [], filename = F, newfile = B\<rparr> ys)
               (\<lambda>sy. Inr (Some (dx @ E (py_strip out) @ diff_data sy)))))"
proof (cases "execute run [git self, ''svn'', ''find-rev'', a]")
  case (Inl e)
  then show ?thesis by (simp add: make_svn_diff_def bind_def)
next
  case (Inr out)
  show ?thesis
  proof (cases "py_strip out = []")
    case True
    with Inr show ?thesis by (simp add: make_svn_diff_def bind_def)
  next
    case False
    show ?thesis
    proof (cases "svn_diff_lines (py_strip out) \<lparr>diff_data = [], filename = [], newfile = False\<rparr> xs")
      case (Inl e)
      with Inr False show ?thesis
        by (simp add: make_svn_diff_def svn_diff_lines_append bind_def)
    next
      case sx: (Inr sx)
      have x: "make_svn_diff run self a xs = Inr (Some (diff_data sx))"
        using Inr False sx by (simp add: make_svn_diff_def bind_def)
      have l: "make_svn_diff run self a (xs @ ls @ ys) =
          bind (svn_diff_lines (py_strip out)
                  \<lparr>diff_data = diff_data sx @ E (py_strip out), filename = F, newfile = B\<rparr> ys)
            (\<lambda>st'. Inr (Some (diff_data st')))"
        using Inr False sx assms[of "py_strip out" sx]
        by (simp add: make_svn_diff_append[of run self a xs "ls @ ys"] svn_diff_lines_append bind_def)
      show ?thesis
        unfolding l
        by (subst svn_diff_lines_from)
           (cases "svn_diff_lines (py_strip out) \<lparr>diff_data = [], filename = F, newfile = B\<rparr> ys";
            simp add: Inr x bind_def)
    qed
  qed
qed

lemma new_file_section:
  assumes "py_strip l1 = ''--- /dev/null''" and "startswith l2 ''+++ ''"
  shows "svn_diff_lines revno st [l1, l2] =
           Inr \<lparr>diff_data = diff_data st
                   @ ''--- '' @ py_strip (drop 4 l2) @ [TAB] @ ''(revision 0)'' @ [LF]
                   @ ''+++ '' @ py_strip (drop 4 l2) @ [TAB] @ ''(revision 0)'' @ [LF],
                filename = py_strip (drop 4 l2), newfile = True\<rparr>"
proof -
  have a: "svn_diff_line revno st l1 = Inr (st\<lparr>newfile := True\<rparr>)"
    using dev_null_not_diff'[OF assms(1)] assms(1) by (simp add: svn_diff_line_def)
  have b: "newfile (st\<lparr>newfile := True\<rparr>)" by simp
  show ?thesis
    by (simp add: a plus_line_new[OF assms(2) b] bind_def)
qed

lemma dev_null_line:
  assumes "py_strip l1 = ''--- /dev/null''"
  shows "\<exists>st'. svn_diff_lines revno st [l1] = Inr st' \<and> diff_data st' = diff_data st @ []"
  using dev_null_not_diff'[OF assms] assms by (simp add: svn_diff_line_def bind_def)

text \<open>
  Claim C3. Where the old-file header of a file section is \<open>--- /dev/null\<close> (up to surrounding
  whitespace) and the next line is a \<open>+++ <path>\<close> header, the translator emits nothing for the
  \<open>--- /dev/null\<close> line: the text returned for an input that ends with it is the text returned
  without it. At the \<open>+++\<close> line it emits exactly the two lines \<open>--- <path>\t(revision 0)\<close> and
  \<open>+++ <path>\t(revision 0)\<close>, the path being that of the \<open>+++\<close> line: they follow the text of
  the lines before the section and precede the text of the lines after it. The last two
  conjuncts say the same of the loop body, in every state of the loop.
\<close>

theorem new_file_headers:
  assumes "py_strip l1 = ''--- /dev/null''" and "startswith l2 ''+++ ''"
  shows "make_svn_diff run self a (xs @ [l1]) = make_svn_diff run self a xs \<and>
         make_svn_diff run self a (xs @ [l1, l2]) =
           bind (make_svn_diff run self a xs) (\<lambda>r.
             Inr (map_option (\<lambda>d. d @ ''--- '' @ py_strip (drop 4 l2) @ [TAB] @ ''(revision 0)'' @ [LF]
                                     @ ''+++ '' @ py_strip (drop 4 l2) @ [TAB] @ ''(revision 0)'' @ [LF]) r)) \<and>
         make_svn_diff run self a (xs @ [l1, l2] @ ys) =
           bind (execute run [git self, ''svn'', ''find-rev'', a]) (\<lambda>out.
             bind (make_svn_diff run self a xs) (\<lambda>r.
               case r of
                 None \<Rightarrow> Inr None
               | Some dx \<Rightarrow>
                   bind (svn_diff_lines (py_strip out)
                           \<lparr>diff_data = [], filename = py_strip (drop 4 l2), newfile = True\<rparr> ys)
                     (\<lambda>sy. Inr (Some (dx @ (''--- '' @ py_strip (drop 4 l2) @ [TAB] @ ''(revision 0)'' @ [LF]
                                     @ ''+++ '' @ py_strip (drop 4 l2) @ [TAB] @ ''(revision 0)'' @ [LF])
                                   @ diff_data sy))))) \<and>
         svn_diff_line revno st l1 = Inr (st\<lparr>newfile := True\<rparr>) \<and>
         svn_diff_lines revno st [l1, l2] =
           Inr (st\<lparr>newfile := True, filename := py_strip (drop 4 l2),
                   diff_data := diff_data st
                     @ ''--- '' @ py_strip (drop 4 l2) @ [TAB] @ ''(revision 0)'' @ [LF]
                     @ ''+++ '' @ py_strip (drop 4 l2) @ [TAB] @ ''(revision 0)'' @ [LF]\<rparr>)"
proof (intro conjI)
  have "make_svn_diff run self a (xs @ [l1]) =
          bind (make_svn_diff run self a xs) (\<lambda>r. Inr (map_option (\<lambda>d. d @ []) r))"
    by (rule make_svn_diff_emit_const) (rule dev_null_line[OF assms(1)])
  then show "make_svn_diff run self a (xs @ [l1]) = make_svn_diff run self a xs"
    by (cases "make_svn_diff run self a xs") (simp_all add: bind_def option.map_ident)
next
  show "make_svn_diff run self a (xs @ [l1, l2]) =
           bind (make_svn_diff run self a xs) (\<lambda>r.
             Inr (map_option (\<lambda>d. d @ ''--- '' @ py_strip (drop 4 l2) @ [TAB] @ ''(revision 0)'' @ [LF]
                                     @ ''+++ '' @ py_strip (drop 4 l2) @ [TAB] @ ''(revision 0)'' @ [LF]) r))"
    by (rule make_svn_diff_emit_const) (simp add: new_file_section[OF assms] del: svn_diff_lines.simps)
next
  show "make_svn_diff run self a (xs @ [l1, l2] @ ys) =
           bind (execute run [git self, ''svn'', ''find-rev'', a]) (\<lambda>out.
             bind (make_svn_diff run self a xs) (\<lambda>r.
               case r of
                 None \<Rightarrow> Inr None
               | Some dx \<Rightarrow>
                   bind (svn_diff_lines (py_strip out)
                           \<lparr>diff_data = [], filename = py_strip (drop 4 l2), newfile = True\<rparr> ys)
                     (\<lambda>sy. Inr (Some (dx @ (''--- '' @ py_strip (drop 4 l2) @ [TAB] @ ''(revision 0)'' @ [LF]
                                     @ ''+++ '' @ py_strip (drop 4 l2) @ [TAB] @ ''(revision 0)'' @ [LF])
                                   @ diff_data sy)))))"
    by (rule make_svn_diff_section[where E = "\<lambda>_. ''--- '' @ py_strip (drop 4 l2) @ [TAB] @ ''(revision 0)'' @ [LF]
                                     @ ''+++ '' @ py_strip (drop 4 l2) @ [TAB] @ ''(revision 0)'' @ [LF]"])
       (rule new_file_section[OF assms])
next
  show "svn_diff_line revno st l1 = Inr (st\<lparr>newfile := True\<rparr>)"
    using dev_null_not_diff'[OF assms(1)] assms(1) by (simp add: svn_diff_line_def)
next
  show "svn_diff_lines revno st [l1, l2] =
           Inr (st\<lparr>newfile := True, filename := py_strip (drop 4 l2),
                   diff_data := diff_data st
                     @ ''--- '' @ py_strip (drop 4 l2) @ [TAB] @ ''(revision 0)'' @ [LF]
                     @ ''+++ '' @ py_strip (drop 4 l2) @ [TAB] @ ''(revision 0)'' @ [LF]\<rparr>)"
    unfolding new_file_section[OF assms] by simp
qed

theorem new_file_headers_witness:
  "py_strip (''--- /dev/null'' @ [LF]) = ''--- /dev/null'' \<and>
   startswith (''+++ src/new.c'' @ [LF]) ''+++ '' \<and>
   make_svn_diff demo_run demo_svn_client ''topic''
     ([''diff --git src/new.c src/new.c'' @ [LF], ''new file mode 100644'' @ [LF],
       ''index 0000000..83db48f'' @ [LF]]
      @ [''--- /dev/null'' @ [LF], ''+++ src/new.c'' @ [LF]]
      @ [''@@ -0,0 +1 @@'' @ [LF], ''+int x;'' @ [LF]]) =
     Inr (Some (''Index: src/new.c'' @ [LF]
                @ ''==================================================================='' @ [LF]
                @ ''--- src/new.c'' @ [TAB] @ ''(revision 0)'' @ [LF]
                @ ''+++ src/new.c'' @ [TAB] @ ''(revision 0)'' @ [LF]
                @ ''@@ -0,0 +1 @@'' @ [LF] @ ''+int x;'' @ [LF]))"
proof -
  have h1: "py_strip (''--- /dev/null'' @ [LF]) = ''--- /dev/null''" by code_simp
  have h2: "startswith (''+++ src/new.c'' @ [LF]) ''+++ ''" by code_simp
  note t = new_file_headers[OF h1 h2, of demo_run demo_svn_client "''topic''"
      "[''diff --git src/new.c src/new.c'' @ [LF], ''new file mode 100644'' @ [LF],
        ''index 0000000..83db48f'' @ [LF]]"
      "[''@@ -0,0 +1 @@'' @ [LF], ''+int x;'' @ [LF]]",
      THEN conjunct2, THEN conjunct2, THEN conjunct1]
  have c: "make_svn_diff demo_run demo_svn_client ''topic''
     ([''diff --git src/new.c src/new.c'' @ [LF], ''new file mode 100644'' @ [LF],
       ''index 0000000..83db48f'' @ [LF]]
      @ [''--- /dev/null'' @ [LF], ''+++ src/new.c'' @ [LF]]
      @ [''@@ -0,0 +1 @@'' @ [LF], ''+int x;'' @ [LF]]) =
     Inr (Some (''Index: src/new.c'' @ [LF]
                @ ''==================================================================='' @ [LF]
                @ ''--- src/new.c'' @ [TAB] @ ''(revision 0)'' @ [LF]
                @ ''+++ src/new.c'' @ [TAB] @ ''(revision 0)'' @ [LF]
                @ ''@@ -0,0 +1 @@'' @ [LF] @ ''+int x;'' @ [LF]))"
    unfolding t by code_simp
  from h1 h2 c show ?thesis by blast
qed

lemma modified_file_section:
  assumes "startswith l1 ''--- ''" and "py_strip (drop 4 l1) \<noteq> ''/dev/null''"
    and "startswith l2 ''+++ ''"
  shows "svn_diff_lines revno st [l1, l2] =
           Inr \<lparr>diff_data = diff_data st
                   @ ''--- '' @ py_strip (drop 4 l1) @ [TAB] @ ''(revision '' @ revno @ '')'' @ [LF]
                   @ ''+++ '' @ py_strip (drop 4 l2) @ [TAB] @ ''(working copy)'' @ [LF],
                filename = py_strip (drop 4 l2), newfile = False\<rparr>"
    and "svn_diff_line revno st l1 =
           Inr (st\<lparr>newfile := False,
                   diff_data := diff_data st @ ''--- '' @ py_strip (drop 4 l1) @ [TAB]
                                   @ ''(revision '' @ revno @ '')'' @ [LF]\<rparr>)"
proof -
  let ?s = "st\<lparr>newfile := False,
                   diff_data := diff_data st @ ''--- '' @ py_strip (drop 4 l1) @ [TAB]
                                   @ ''(revision '' @ revno @ '')'' @ [LF]\<rparr>"
  have nd: "py_strip l1 \<noteq> ''--- /dev/null''"
    using dev_null_path[OF assms(1)] assms(2) by blast
  show a: "svn_diff_line revno st l1 = Inr ?s"
    using minus_not_others[OF assms(1)] assms(1) nd by (simp add: svn_diff_line_def)
  have b: "\<not> newfile ?s" by simp
  have "svn_diff_lines revno st [l1, l2] = svn_diff_line revno ?s l2"
    by (simp add: a bind_def split: sum.splits)
  also have "\<dots> = Inr (?s\<lparr>filename := py_strip (drop 4 l2),
                  diff_data := diff_data ?s
                     @ ''+++ '' @ py_strip (drop 4 l2) @ [TAB] @ ''(working copy)'' @ [LF]\<rparr>)"
    by (rule plus_line_old[OF assms(3) b])
  finally show "svn_diff_lines revno st [l1, l2] =
           Inr \<lparr>diff_data = diff_data st
                   @ ''--- '' @ py_strip (drop 4 l1) @ [TAB] @ ''(revision '' @ revno @ '')'' @ [LF]
                   @ ''+++ '' @ py_strip (drop 4 l2) @ [TAB] @ ''(working copy)'' @ [LF],
                filename = py_strip (drop 4 l2), newfile = False\<rparr>"
    by simp
qed

lemma old_file_line:
  assumes "startswith l1 ''--- ''" and "py_strip (drop 4 l1) \<noteq> ''/dev/null''"
  shows "\<exists>st'. svn_diff_lines revno st [l1] = Inr st' \<and>
           diff_data st' = diff_data st @ ''--- '' @ py_strip (drop 4 l1) @ [TAB]
                             @ ''(revision '' @ revno @ '')'' @ [LF]"
proof -
  have nd: "py_strip l1 \<noteq> ''--- /dev/null''"
    using dev_null_path[OF assms(1)] assms(2) by blast
  show ?thesis
    using minus_not_others[OF assms(1)] assms(1) nd by (simp add: svn_diff_line_def bind_def)
qed

text \<open>
  Claim C4. Where the old-file header of a file section is \<open>--- <path>\<close> with a path other
  than \<open>/dev/null\<close>, the translator emits \<open>--- <path>\t(revision N)\<close> for that line, \<open>N\<close> being
  the stripped output of \<open>git svn find-rev\<close> for the ancestor, and at the following \<open>+++ <path>\<close>
  line emits only \<open>+++ <path>\t(working copy)\<close>; the two lines follow the text of the lines
  before the section and precede the text of the lines after it.
\<close>

theorem modified_file_headers:
  assumes "startswith l1 ''--- ''" and "py_strip (drop 4 l1) \<noteq> ''/dev/null''"
    and "startswith l2 ''+++ ''"
  shows "make_svn_diff run self a (xs @ [l1]) =
           bind (execute run [git self, ''svn'', ''find-rev'', a]) (\<lambda>out.
             bind (make_svn_diff run self a xs) (\<lambda>r.
               Inr (map_option (\<lambda>d. d @ ''--- '' @ py_strip (drop 4 l1) @ [TAB]
                                       @ ''(revision '' @ py_strip out @ '')'' @ [LF]) r))) \<and>
         make_svn_diff run self a (xs @ [l1, l2]) =
           bind (execute run [git self, ''svn'', ''find-rev'', a]) (\<lambda>out.
             bind (make_svn_diff run self a xs) (\<lambda>r.
               Inr (map_option (\<lambda>d. d @ ''--- '' @ py_strip (drop 4 l1) @ [TAB]
                                       @ ''(revision '' @ py_strip out @ '')'' @ [LF]
                                       @ ''+++ '' @ py_strip (drop 4 l2) @ [TAB]
                                       @ ''(working copy)'' @ [LF]) r))) \<and>
         make_svn_diff run self a (xs @ [l1, l2] @ ys) =
           bind (execute run [git self, ''svn'', ''find-rev'', a]) (\<lambda>out.
             bind (make_svn_diff run self a xs) (\<lambda>r.
               case r of
                 None \<Rightarrow> Inr None
               | Some dx \<Rightarrow>
                   bind (svn_diff_lines (py_strip out)
                           \<lparr>diff_data = [], filename = py_strip (drop 4 l2), newfile = False\<rparr> ys)
                     (\<lambda>sy. Inr (Some (dx @ (''--- '' @ py_strip (drop 4 l1) @ [TAB]
                                            @ ''(revision '' @ py_strip out @ '')'' @ [LF]
                                            @ ''+++ '' @ py_strip (drop 4 l2) @ [TAB]
                                            @ ''(working copy)'' @ [LF])
                                   @ diff_data sy))))) \<and>
         svn_diff_line revno st l1 =
           Inr (st\<lparr>newfile := False,
                   diff_data := diff_data st @ ''--- '' @ py_strip (drop 4 l1) @ [TAB]
                                   @ ''(revision '' @ revno @ '')'' @ [LF]\<rparr>) \<and>
         svn_diff_lines revno st [l1, l2] =
           Inr (st\<lparr>newfile := False, filename := py_strip (drop 4 l2),
                   diff_data := diff_data st
                     @ ''--- '' @ py_strip (drop 4 l1) @ [TAB] @ ''(revision '' @ revno @ '')'' @ [LF]
                     @ ''+++ '' @ py_strip (drop 4 l2) @ [TAB] @ ''(working copy)'' @ [LF]\<rparr>)"
proof (intro conjI)
  show "make_svn_diff run self a (xs @ [l1]) =
           bind (execute run [git self, ''svn'', ''find-rev'', a]) (\<lambda>out.
             bind (make_svn_diff run self a xs) (\<lambda>r.
               Inr (map_option (\<lambda>d. d @ ''--- '' @ py_strip (drop 4 l1) @ [TAB]
                                       @ ''(revision '' @ py_strip out @ '')'' @ [LF]) r)))"
    by (rule make_svn_diff_emit[where E = "\<lambda>revno. ''--- '' @ py_strip (drop 4 l1) @ [TAB]
                                       @ ''(revision '' @ revno @ '')'' @ [LF]"])
       (rule old_file_line[OF assms(1,2)])
next
  show "make_svn_diff run self a (xs @ [l1, l2]) =
           bind (execute run [git self, ''svn'', ''find-rev'', a]) (\<lambda>out.
             bind (make_svn_diff run self a xs) (\<lambda>r.
               Inr (map_option (\<lambda>d. d @ ''--- '' @ py_strip (drop 4 l1) @ [TAB]
                                       @ ''(revision '' @ py_strip out @ '')'' @ [LF]
                                       @ ''+++ '' @ py_strip (drop 4 l2) @ [TAB]
                                       @ ''(working copy)'' @ [LF]) r)))"
    by (rule make_svn_diff_emit[where E = "\<lambda>revno. ''--- '' @ py_strip (drop 4 l1) @ [TAB]
                                       @ ''(revision '' @ revno @ '')'' @ [LF]
                                       @ ''+++ '' @ py_strip (drop 4 l2) @ [TAB]
                                       @ ''(working copy)'' @ [LF]"])
       (simp add: modified_file_section(1)[OF assms] del: svn_diff_lines.simps)
next
  show "make_svn_diff run self a (xs @ [l1, l2] @ ys) =
           bind (execute run [git self, ''svn'', ''find-rev'', a]) (\<lambda>out.
             bind (make_svn_diff run self a xs) (\<lambda>r.
               case r of
                 None \<Rightarrow> Inr None
               | Some dx \<Rightarrow>
                   bind (svn_diff_lines (py_strip out)
                           \<lparr>diff_data = [], filename = py_strip (drop 4 l2), newfile = False\<rparr> ys)
                     (\<lambda>sy. Inr (Some (dx @ (''--- '' @ py_strip (drop 4 l1) @ [TAB]
                                            @ ''(revision '' @ py_strip out @ '')'' @ [LF]
                                            @ ''+++ '' @ py_strip (drop 4 l2) @ [TAB]
                                            @ ''(working copy)'' @ [LF])
                                   @ diff_data sy)))))"
    by (rule make_svn_diff_section[where E = "\<lambda>revno. ''--- '' @ py_strip (drop 4 l1) @ [TAB]
                                            @ ''(revision '' @ revno @ '')'' @ [LF]
                                            @ ''+++ '' @ py_strip (drop 4 l2) @ [TAB]
                                            @ ''(working copy)'' @ [LF]"])
       (rule modified_file_section(1)[OF assms])
next
  show "svn_diff_line revno st l1 =
           Inr (st\<lparr>newfile := False,
                   diff_data := diff_data st @ ''--- '' @ py_strip (drop 4 l1) @ [TAB]
                                   @ ''(revision '' @ revno @ '')'' @ [LF]\<rparr>)"
    by (rule modified_file_section(2)[OF assms])
next
  show "svn_diff_lines revno st [l1, l2] =
           Inr (st\<lparr>newfile := False, filename := py_strip (drop 4 l2),
                   diff_data := diff_data st
                     @ ''--- '' @ py_strip (drop 4 l1) @ [TAB] @ ''(revision '' @ revno @ '')'' @ [LF]
                     @ ''+++ '' @ py_strip (drop 4 l2) @ [TAB] @ ''(working copy)'' @ [LF]\<rparr>)"
    unfolding modified_file_section(1)[OF assms] by simp
qed

theorem modified_file_headers_witness:
  "startswith (''--- src/old.c'' @ [LF]) ''--- '' \<and>
   py_strip (drop 4 (''--- src/old.c'' @ [LF])) = ''src/old.c'' \<and>
   startswith (''+++ src/old.c'' @ [LF]) ''+++ '' \<and>
   execute demo_run [git demo_svn_client, ''svn'', ''find-rev'', ''topic''] = Inr (''1234'' @ [LF]) \<and>
   make_svn_diff demo_run demo_svn_client ''topic''
     ([''diff --git src/old.c src/old.c'' @ [LF], ''index 83db48f..bf269f4 100644'' @ [LF]]
      @ [''--- src/old.c'' @ [LF], ''+++ src/old.c'' @ [LF]]
      @ [''@@ -1 +1 @@'' @ [LF], ''-int x;'' @ [LF], ''+int y;'' @ [LF]]) =
     Inr (Some (''Index: src/old.c'' @ [LF]
                @ ''==================================================================='' @ [LF]
                @ ''--- src/old.c'' @ [TAB] @ ''(revision 1234)'' @ [LF]
                @ ''+++ src/old.c'' @ [TAB] @ ''(working copy)'' @ [LF]
                @ ''@@ -1 +1 @@'' @ [LF] @ ''-int x;'' @ [LF] @ ''+int y;'' @ [LF]))"
proof -
  have h1: "startswith (''--- src/old.c'' @ [LF]) ''--- ''" by code_simp
  have p1: "py_strip (drop 4 (''--- src/old.c'' @ [LF])) = ''src/old.c''" by code_simp
  have h2: "py_strip (drop 4 (''--- src/old.c'' @ [LF])) \<noteq> ''/dev/null''" unfolding p1 by simp
  have h3: "startswith (''+++ src/old.c'' @ [LF]) ''+++ ''" by code_simp
  have e: "execute demo_run [git demo_svn_client, ''svn'', ''find-rev'', ''topic''] = Inr (''1234'' @ [LF])"
    by code_simp
  note t = modified_file_headers[OF h1 h2 h3, of demo_run demo_svn_client "''topic''"
      "[''diff --git src/old.c src/old.c'' @ [LF], ''index 83db48f..bf269f4 100644'' @ [LF]]"
      "[''@@ -1 +1 @@'' @ [LF], ''-int x;'' @ [LF], ''+int y;'' @ [LF]]",
      THEN conjunct2, THEN conjunct2, THEN conjunct1]
  have c: "make_svn_diff demo_run demo_svn_client ''topic''
     ([''diff --git src/old.c src/old.c'' @ [LF], ''index 83db48f..bf269f4 100644'' @ [LF]]
      @ [''--- src/old.c'' @ [LF], ''+++ src/old.c'' @ [LF]]
      @ [''@@ -1 +1 @@'' @ [LF], ''-int x;'' @ [LF], ''+int y;'' @ [LF]]) =
     Inr (Some (''Index: src/old.c'' @ [LF]
                @ ''==================================================================='' @ [LF]
                @ ''--- src/old.c'' @ [TAB] @ ''(revision 1234)'' @ [LF]
                @ ''+++ src/old.c'' @ [TAB] @ ''(working copy)'' @ [LF]
                @ ''@@ -1 +1 @@'' @ [LF] @ ''-int x;'' @ [LF] @ ''+int y;'' @ [LF]))"
    unfolding t by code_simp
  from h1 p1 h3 e c show ?thesis by blast
qed

subsection \<open>The classes of lines\<close>

lemma make_svn_diff_insert:
  assumes "\<And>revno st. svn_diff_line revno st l = Inr (st\<lparr>diff_data := diff_data st @ E\<rparr>)"
  shows "make_svn_diff run self a (xs @ [l] @ ys) =
     bind (make_svn_diff run self a xs) (\<lambda>r.
       case r of
         None \<Rightarrow> Inr None
       | Some dx \<Rightarrow>
           bind (make_svn_diff run self a (xs @ ys)) (\<lambda>q.
             Inr (map_option (\<lambda>d. dx @ E @ drop (length dx) d) q)))"
proof (cases "execute run [git self, ''svn'', ''find-rev'', a]")
  case (Inl e)
  then show ?thesis by (simp add: make_svn_diff_def bind_def)
next
  case (Inr out)
  show ?thesis
  proof (cases "py_strip out = []")
    case True
    with Inr show ?thesis by (simp add: make_svn_diff_def bind_def)
  next
    case False
    show ?thesis
    proof (cases "svn_diff_lines (py_strip out) \<lparr>diff_data = [], filename = [], newfile = False\<rparr> xs")
      case (Inl e)
      with Inr False show ?thesis
        by (simp add: make_svn_diff_def svn_diff_lines_append bind_def)
    next
      case sx: (Inr sx)
      have x: "make_svn_diff run self a xs = Inr (Some (diff_data sx))"
        using Inr False sx by (simp add: make_svn_diff_def bind_def)
      have sxr: "sx = \<lparr>diff_data = diff_data sx, filename = filename sx, newfile = newfile sx\<rparr>"
        by simp
      have upd: "sx\<lparr>diff_data := diff_data sx @ E\<rparr> =
                   \<lparr>diff_data = diff_data sx @ E, filename = filename sx, newfile = newfile sx\<rparr>"
        by simp
      let ?r0 = "svn_diff_lines (py_strip out)
                   \<lparr>diff_data = [], filename = filename sx, newfile = newfile sx\<rparr> ys"
      have y1: "svn_diff_lines (py_strip out) sx ys =
                  map_sum id (\<lambda>s. s\<lparr>diff_data := diff_data sx @ diff_data s\<rparr>) ?r0"
        by (subst sxr, subst svn_diff_lines_from) simp
      have y2: "svn_diff_lines (py_strip out) (sx\<lparr>diff_data := diff_data sx @ E\<rparr>) ys =
                  map_sum id (\<lambda>s. s\<lparr>diff_data := (diff_data sx @ E) @ diff_data s\<rparr>) ?r0"
        unfolding upd by (subst svn_diff_lines_from) simp
      have l: "make_svn_diff run self a (xs @ [l] @ ys) =
                 bind (svn_diff_lines (py_strip out) (sx\<lparr>diff_data := diff_data sx @ E\<rparr>) ys)
                   (\<lambda>st'. Inr (Some (diff_data st')))"
        using Inr False sx assms[of "py_strip out" sx]
        by (simp add: make_svn_diff_append[of run self a xs "l # ys"] bind_def)
      have r: "make_svn_diff run self a (xs @ ys) =
                 bind (svn_diff_lines (py_strip out) sx ys) (\<lambda>st'. Inr (Some (diff_data st')))"
        using Inr False sx by (simp add: make_svn_diff_append[of run self a xs ys] bind_def)
      show ?thesis
        unfolding l r y1 y2 x
        by (cases ?r0) (simp_all add: bind_def)
    qed
  qed
qed

lemma make_svn_diff_raise:
  assumes "\<And>revno st. svn_diff_line revno st l = Inl IndexError"
  shows "make_svn_diff run self a (xs @ [l] @ ys) =
     bind (make_svn_diff run self a xs) (\<lambda>r.
       case r of None \<Rightarrow> Inr None | Some dx \<Rightarrow> Inl IndexError)"
proof (cases "execute run [git self, ''svn'', ''find-rev'', a]")
  case (Inl e)
  then show ?thesis by (simp add: make_svn_diff_def bind_def)
next
  case (Inr out)
  show ?thesis
  proof (cases "py_strip out = []")
    case True
    with Inr show ?thesis by (simp add: make_svn_diff_def bind_def)
  next
    case False
    show ?thesis
    proof (cases "svn_diff_lines (py_strip out) \<lparr>diff_data = [], filename = [], newfile = False\<rparr> xs")
      case (Inl e)
      with Inr False show ?thesis
        by (simp add: make_svn_diff_def svn_diff_lines_append bind_def)
    next
      case sx: (Inr sx)
      have x: "make_svn_diff run self a xs = Inr (Some (diff_data sx))"
        using Inr False sx by (simp add: make_svn_diff_def bind_def)
      have l: "make_svn_diff run self a (xs @ [l] @ ys) = Inl IndexError"
        using Inr False sx assms[of "py_strip out" sx]
        by (simp add: make_svn_diff_append[of run self a xs "l # ys"] bind_def)
      show ?thesis unfolding l x by (simp add: bind_def)
    qed
  qed
qed

lemma diff_line_ok:
  assumes "startswith ld ''diff ''" and "3 \<le> length (py_split CHR '' '' ld)"
  shows "svn_diff_line revno st ld =
           Inr (st\<lparr>diff_data := diff_data st @ ''Index: '' @ py_split CHR '' '' ld ! 2 @ [LF]
                                   @ replicate 67 CHR ''='' @ [LF]\<rparr>)"
  using assms by (simp add: svn_diff_line_def py_index_def bind_def)

lemma diff_line_short:
  assumes "startswith ls ''diff ''" and "length (py_split CHR '' '' ls) < 3"
  shows "svn_diff_line revno st ls = Inl IndexError"
  using assms by (simp add: svn_diff_line_def py_index_def bind_def)

lemma dropped_line:
  assumes "startswith li ''index '' \<or> startswith li ''new file mode''"
  shows "svn_diff_line revno st li = Inr st"
proof -
  have "py_strip li \<noteq> ''--- /dev/null''"
    using assms by (auto simp: startswith_iff py_strip_Cons_nonspace is_space_def TAB_def LF_def VT_def FF_def CR_def)
  moreover have "\<not> startswith li ''diff ''" using assms by (auto simp: startswith_iff)
  moreover have "startswith li ''new file mode'' \<Longrightarrow> \<not> startswith li ''--- '' \<and> \<not> startswith li ''+++ ''"
    by (auto simp: startswith_iff)
  ultimately show ?thesis
    using assms by (auto simp: svn_diff_line_def)
qed

lemma binary_line:
  assumes "startswith lb ''Binary files ''"
  shows "svn_diff_line revno st lb =
        Inr (st\<lparr>diff_data := diff_data st
                  @ ''Cannot display: file marked as a binary type.'' @ [LF]
                  @ ''svn:mime-type = application/octet-stream'' @ [LF]\<rparr>)"
proof -
  have "py_strip lb \<noteq> ''--- /dev/null''"
    using assms by (auto simp: startswith_iff py_strip_Cons_nonspace is_space_def TAB_def LF_def VT_def FF_def CR_def)
  moreover have "\<not> startswith lb ''diff '' \<and> \<not> startswith lb ''index '' \<and> \<not> startswith lb ''--- ''
     \<and> \<not> startswith lb ''+++ '' \<and> \<not> startswith lb ''new file mode''"
    using assms by (auto simp: startswith_iff)
  ultimately show ?thesis
    using assms by (simp add: svn_diff_line_def)
qed

lemma other_line:
  assumes "\<not> startswith lo ''diff '' \<and> \<not> startswith lo ''index '' \<and> py_strip lo \<noteq> ''--- /dev/null'' \<and>
    \<not> startswith lo ''--- '' \<and> \<not> startswith lo ''+++ '' \<and> \<not> startswith lo ''new file mode'' \<and>
    \<not> startswith lo ''Binary files ''"
  shows "svn_diff_line revno st lo = Inr (st\<lparr>diff_data := diff_data st @ lo\<rparr>)"
  using assms by (simp add: svn_diff_line_def)

lemma make_svn_diff_skip:
  assumes "\<And>revno st. svn_diff_line revno st l = Inr st"
  shows "make_svn_diff run self a (xs @ [l] @ ys) = make_svn_diff run self a (xs @ ys)"
proof -
  have e: "svn_diff_lines revno st ([l] @ ys) = svn_diff_lines revno st ys" for revno st
    by (simp add: assms bind_def)
  show ?thesis
    by (simp only: make_svn_diff_append[of run self a xs "[l] @ ys"]
          make_svn_diff_append[of run self a xs ys] e)
qed

text \<open>
  Claim C5, as amended. Take a line at any place of the input, between the lines \<open>xs\<close> and
  the lines \<open>ys\<close>. A line starting with \<open>diff \<close> puts \<open>Index: <p>\<close> and a line of exactly 67 \<open>=\<close>
  characters between the text of \<open>xs\<close> and the text of \<open>ys\<close>, where \<open><p>\<close> is the third field of
  the line split at single spaces, provided the line has at least three such fields; with
  fewer, and a revision number that is not empty, the translator raises IndexError and
  returns nothing. A line starting with \<open>index \<close> or \<open>new file mode\<close> adds nothing; a line
  starting with \<open>Binary files \<close> puts exactly the two fixed lines there; a line matching none
  of the patterns is copied there unchanged. The text returned for a prefix of the input is a
  prefix of the text returned for the input.
\<close>

theorem line_classes:
  "(startswith ld ''diff '' \<and> 3 \<le> length (py_split CHR '' '' ld) \<longrightarrow>
      make_svn_diff run self a (xs @ [ld] @ ys) =
        bind (make_svn_diff run self a xs) (\<lambda>r.
          case r of
            None \<Rightarrow> Inr None
          | Some dx \<Rightarrow>
              bind (make_svn_diff run self a (xs @ ys)) (\<lambda>q.
                Inr (map_option
                       (\<lambda>d. dx @ (''Index: '' @ py_split CHR '' '' ld ! 2 @ [LF]
                                    @ replicate 67 CHR ''='' @ [LF]) @ drop (length dx) d) q)))) \<and>
   (startswith ls ''diff '' \<and> length (py_split CHR '' '' ls) < 3 \<longrightarrow>
      make_svn_diff run self a (xs @ [ls] @ ys) =
        bind (make_svn_diff run self a xs) (\<lambda>r.
          case r of None \<Rightarrow> Inr None | Some dx \<Rightarrow> Inl IndexError)) \<and>
   (startswith li ''index '' \<or> startswith li ''new file mode'' \<longrightarrow>
      make_svn_diff run self a (xs @ [li] @ ys) = make_svn_diff run self a (xs @ ys)) \<and>
   (startswith lb ''Binary files '' \<longrightarrow>
      make_svn_diff run self a (xs @ [lb] @ ys) =
        bind (make_svn_diff run self a xs) (\<lambda>r.
          case r of
            None \<Rightarrow> Inr None
          | Some dx \<Rightarrow>
              bind (make_svn_diff run self a (xs @ ys)) (\<lambda>q.
                Inr (map_option
                       (\<lambda>d. dx @ (''Cannot display: file marked as a binary type.'' @ [LF]
                                    @ ''svn:mime-type = application/octet-stream'' @ [LF])
                                 @ drop (length dx) d) q)))) \<and>
   (\<not> startswith lo ''diff '' \<and> \<not> startswith lo ''index '' \<and> py_strip lo \<noteq> ''--- /dev/null'' \<and>
    \<not> startswith lo ''--- '' \<and> \<not> startswith lo ''+++ '' \<and> \<not> startswith lo ''new file mode'' \<and>
    \<not> startswith lo ''Binary files '' \<longrightarrow>
      make_svn_diff run self a (xs @ [lo] @ ys) =
        bind (make_svn_diff run self a xs) (\<lambda>r.
          case r of
            None \<Rightarrow> Inr None
          | Some dx \<Rightarrow>
              bind (make_svn_diff run self a (xs @ ys)) (\<lambda>q.
                Inr (map_option (\<lambda>d. dx @ lo @ drop (length dx) d) q)))) \<and>
   (make_svn_diff run self a (xs @ ys) = Inr (Some d) \<longrightarrow>
      (\<exists>dx. make_svn_diff run self a xs = Inr (Some dx) \<and> take (length dx) d = dx))"
proof (intro conjI impI)
  assume "startswith ld ''diff '' \<and> 3 \<le> length (py_split CHR '' '' ld)"
  then show "make_svn_diff run self a (xs @ [ld] @ ys) =
        bind (make_svn_diff run self a xs) (\<lambda>r.
          case r of
            None \<Rightarrow> Inr None
          | Some dx \<Rightarrow>
              bind (make_svn_diff run self a (xs @ ys)) (\<lambda>q.
                Inr (map_option
                       (\<lambda>d. dx @ (''Index: '' @ py_split CHR '' '' ld ! 2 @ [LF]
                                    @ replicate 67 CHR ''='' @ [LF]) @ drop (length dx) d) q)))"
    by (intro make_svn_diff_insert) (simp add: diff_line_ok)
next
  assume "startswith ls ''diff '' \<and> length (py_split CHR '' '' ls) < 3"
  then show "make_svn_diff run self a (xs @ [ls] @ ys) =
        bind (make_svn_diff run self a xs) (\<lambda>r.
          case r of None \<Rightarrow> Inr None | Some dx \<Rightarrow> Inl IndexError)"
    by (intro make_svn_diff_raise) (simp add: diff_line_short)
next
  assume "startswith li ''index '' \<or> startswith li ''new file mode''"
  then show "make_svn_diff run self a (xs @ [li] @ ys) = make_svn_diff run self a (xs @ ys)"
    by (intro make_svn_diff_skip dropped_line)
next
  assume "startswith lb ''Binary files ''"
  then show "make_svn_diff run self a (xs @ [lb] @ ys) =
        bind (make_svn_diff run self a xs) (\<lambda>r.
          case r of
            None \<Rightarrow> Inr None
          | Some dx \<Rightarrow>
              bind (make_svn_diff run self a (xs @ ys)) (\<lambda>q.
                Inr (map_option
                       (\<lambda>d. dx @ (''Cannot display: file marked as a binary type.'' @ [LF]
                                    @ ''svn:mime-type = application/octet-stream'' @ [LF])
                                 @ drop (length dx) d) q)))"
    by (intro make_svn_diff_insert) (simp add: binary_line)
next
  assume "\<not> startswith lo ''diff '' \<and> \<not> startswith lo ''index '' \<and> py_strip lo \<noteq> ''--- /dev/null'' \<and>
    \<not> startswith lo ''--- '' \<and> \<not> startswith lo ''+++ '' \<and> \<not> startswith lo ''new file mode'' \<and>
    \<not> startswith lo ''Binary files ''"
  then show "make_svn_diff run self a (xs @ [lo] @ ys) =
        bind (make_svn_diff run self a xs) (\<lambda>r.
          case r of
            None \<Rightarrow> Inr None
          | Some dx \<Rightarrow>
              bind (make_svn_diff run self a (xs @ ys)) (\<lambda>q.
                Inr (map_option (\<lambda>d. dx @ lo @ drop (length dx) d) q)))"
    by (intro make_svn_diff_insert other_line)
next
  assume a: "make_svn_diff run self a (xs @ ys) = Inr (Some d)"
  then obtain out sx sy where
    "svn_diff_lines (py_strip out) \<lparr>diff_data = [], filename = [], newfile = False\<rparr> xs = Inr sx"
    "svn_diff_lines (py_strip out) sx ys = Inr sy" "d = diff_data sy"
    "execute run [git self, ''svn'', ''find-rev'', a] = Inr out" "py_strip out \<noteq> []"
    unfolding make_svn_diff_append[of run self a xs ys]
    by (auto simp: bind_Inr_iff split: if_splits)
  moreover from diff_data_grows[OF this(2)] obtain e where "diff_data sy = diff_data sx @ e" by blast
  ultimately show "\<exists>dx. make_svn_diff run self a xs = Inr (Some dx) \<and> take (length dx) d = dx"
    by (simp add: make_svn_diff_def bind_def)
qed

theorem line_classes_witness:
  "startswith (''diff --git src/a.c src/a.c'' @ [LF]) ''diff '' \<and>
   3 \<le> length (py_split CHR '' '' (''diff --git src/a.c src/a.c'' @ [LF])) \<and>
   make_svn_diff demo_run demo_svn_client ''topic''
       ([''+a'' @ [LF]] @ [''diff --git src/a.c src/a.c'' @ [LF]] @ [''-b'' @ [LF]]) =
     Inr (Some (''+a'' @ [LF] @ ''Index: src/a.c'' @ [LF]
                @ ''==================================================================='' @ [LF]
                @ ''-b'' @ [LF])) \<and>
   startswith ''diff --stat'' ''diff '' \<and> length (py_split CHR '' '' ''diff --stat'') < 3 \<and>
   make_svn_diff demo_run demo_svn_client ''topic''
       ([''+a'' @ [LF]] @ [''diff --stat''] @ [''-b'' @ [LF]]) = Inl IndexError \<and>
   startswith (''index 83db48f..bf269f4 100644'' @ [LF]) ''index '' \<and>
   make_svn_diff demo_run demo_svn_client ''topic''
       ([''+a'' @ [LF]] @ [''index 83db48f..bf269f4 100644'' @ [LF]] @ [''-b'' @ [LF]]) =
     Inr (Some (''+a'' @ [LF] @ ''-b'' @ [LF])) \<and>
   startswith (''Binary files a.png and b.png differ'' @ [LF]) ''Binary files '' \<and>
   make_svn_diff demo_run demo_svn_client ''topic''
       ([''+a'' @ [LF]] @ [''Binary files a.png and b.png differ'' @ [LF]] @ [''-b'' @ [LF]]) =
     Inr (Some (''+a'' @ [LF] @ ''Cannot display: file marked as a binary type.'' @ [LF]
                @ ''svn:mime-type = application/octet-stream'' @ [LF] @ ''-b'' @ [LF])) \<and>
   make_svn_diff demo_run demo_svn_client ''topic''
       ([''+a'' @ [LF]] @ [''@@ -1,3 +1,4 @@'' @ [LF]] @ [''-b'' @ [LF]]) =
     Inr (Some (''+a'' @ [LF] @ ''@@ -1,3 +1,4 @@'' @ [LF] @ ''-b'' @ [LF])) \<and>
   make_svn_diff demo_run demo_svn_client ''topic'' ([''+a'' @ [LF]] @ [''-b'' @ [LF]]) =
     Inr (Some (''+a'' @ [LF] @ ''-b'' @ [LF])) \<and>
   (\<exists>dx. make_svn_diff demo_run demo_svn_client ''topic'' [''+a'' @ [LF]] = Inr (Some dx) \<and>
         take (length dx) (''+a'' @ [LF] @ ''-b'' @ [LF]) = dx)"
proof -
  let ?ld = "''diff --git src/a.c src/a.c'' @ [LF]"
  let ?ls = "''diff --stat''"
  let ?li = "''index 83db48f..bf269f4 100644'' @ [LF]"
  let ?lb = "''Binary files a.png and b.png differ'' @ [LF]"
  let ?lo = "''@@ -1,3 +1,4 @@'' @ [LF]"
  let ?xs = "[''+a'' @ [LF]]"
  let ?ys = "[''-b'' @ [LF]]"
  let ?d = "''+a'' @ [LF] @ ''-b'' @ [LF]"
  have d1: "startswith ?ld ''diff ''" by code_simp
  have d2: "3 \<le> length (py_split CHR '' '' ?ld)" by code_simp
  have s1: "startswith ?ls ''diff ''" by code_simp
  have s2: "length (py_split CHR '' '' ?ls) < 3" by code_simp
  have i1: "startswith ?li ''index ''" by code_simp
  have b1: "startswith ?lb ''Binary files ''" by code_simp
  have o1: "\<not> startswith ?lo ''diff '' \<and> \<not> startswith ?lo ''index '' \<and> py_strip ?lo \<noteq> ''--- /dev/null'' \<and>
    \<not> startswith ?lo ''--- '' \<and> \<not> startswith ?lo ''+++ '' \<and> \<not> startswith ?lo ''new file mode'' \<and>
    \<not> startswith ?lo ''Binary files ''" by code_simp
  have p1: "make_svn_diff demo_run demo_svn_client ''topic'' (?xs @ ?ys) = Inr (Some ?d)"
    by code_simp
  note t = line_classes[where ld = ?ld and ls = ?ls and li = ?li and lb = ?lb and lo = ?lo
      and run = demo_run and self = demo_svn_client and a = "''topic''" and xs = ?xs and ys = ?ys
      and d = ?d]
  note t1 = t[THEN conjunct1, THEN mp, OF conjI[OF d1 d2]]
  note t2 = t[THEN conjunct2, THEN conjunct1, THEN mp, OF conjI[OF s1 s2]]
  note t3 = t[THEN conjunct2, THEN conjunct2, THEN conjunct1, THEN mp, OF disjI1[OF i1]]
  note t4 = t[THEN conjunct2, THEN conjunct2, THEN conjunct2, THEN conjunct1, THEN mp, OF b1]
  note t5 = t[THEN conjunct2, THEN conjunct2, THEN conjunct2, THEN conjunct2, THEN conjunct1,
      THEN mp, OF o1]
  note t6 = t[THEN conjunct2, THEN conjunct2, THEN conjunct2, THEN conjunct2, THEN conjunct2,
      THEN mp, OF p1]
  have c1: "make_svn_diff demo_run demo_svn_client ''topic'' (?xs @ [?ld] @ ?ys) =
     Inr (Some (''+a'' @ [LF] @ ''Index: src/a.c'' @ [LF]
                @ ''==================================================================='' @ [LF]
                @ ''-b'' @ [LF]))"
    unfolding t1 by code_simp
  have c2: "make_svn_diff demo_run demo_svn_client ''topic'' (?xs @ [?ls] @ ?ys) = Inl IndexError"
    unfolding t2 by code_simp
  have c3: "make_svn_diff demo_run demo_svn_client ''topic'' (?xs @ [?li] @ ?ys) =
     Inr (Some (''+a'' @ [LF] @ ''-b'' @ [LF]))"
    unfolding t3 by code_simp
  have c4: "make_svn_diff demo_run demo_svn_client ''topic'' (?xs @ [?lb] @ ?ys) =
     Inr (Some (''+a'' @ [LF] @ ''Cannot display: file marked as a binary type.'' @ [LF]
                @ ''svn:mime-type = application/octet-stream'' @ [LF] @ ''-b'' @ [LF]))"
    unfolding t4 by code_simp
  have c5: "make_svn_diff demo_run demo_svn_client ''topic'' (?xs @ [?lo] @ ?ys) =
     Inr (Some (''+a'' @ [LF] @ ''@@ -1,3 +1,4 @@'' @ [LF] @ ''-b'' @ [LF]))"
    unfolding t5 by code_simp
  from d1 d2 c1 s1 s2 c2 i1 c3 b1 c4 c5 p1 t6 show ?thesis by blast
qed

text \<open>
  Claim C5 as stated fails: in \<open>diff --cc f\<close> followed by a newline the third
  whitespace-separated token is \<open>f\<close>, but the translator takes the field \<open>f\<close> with its newline;
  and for \<open>diff --stat\<close>, which has two fields, it raises IndexError and returns nothing.
\<close>

theorem diff_line_third_token_counterexample:
  "startswith (''diff --cc f'' @ [LF]) ''diff '' \<and>
   py_split_ws (''diff --cc f'' @ [LF]) ! 2 = ''f'' \<and>
   make_svn_diff demo_run demo_svn_client ''topic'' [''diff --cc f'' @ [LF]] =
     Inr (Some (''Index: f'' @ [LF] @ [LF]
                @ ''==================================================================='' @ [LF])) \<and>
   make_svn_diff demo_run demo_svn_client ''topic'' [''diff --cc f'' @ [LF]] \<noteq>
     Inr (Some (''Index: '' @ py_split_ws (''diff --cc f'' @ [LF]) ! 2 @ [LF]
                @ replicate 67 CHR ''='' @ [LF])) \<and>
   startswith ''diff --stat'' ''diff '' \<and>
   make_svn_diff demo_run demo_svn_client ''topic'' [''diff --stat''] = Inl IndexError"
  by code_simp

subsection \<open>When the translator returns nothing\<close>

lemma svn_diff_lines_raise:
  assumes "\<exists>l\<in>set ls. startswith l ''diff '' \<and> length (py_split CHR '' '' l) < 3"
  shows "svn_diff_lines revno st ls = Inl IndexError"
  using assms
proof (induction ls arbitrary: st)
  case Nil
  then show ?case by simp
next
  case (Cons l ls)
  show ?case
  proof (cases "svn_diff_line revno st l")
    case (Inl e)
    with svn_diff_line_cases[of revno st l] show ?thesis by (simp add: bind_def)
  next
    case (Inr s1)
    then have "\<not> (startswith l ''diff '' \<and> length (py_split CHR '' '' l) < 3)"
      using diff_line_short[of l revno st] by auto
    with Cons.prems have "\<exists>l\<in>set ls. startswith l ''diff '' \<and> length (py_split CHR '' '' l) < 3"
      by auto
    from Cons.IH[OF this, of s1] Inr show ?thesis by (simp add: bind_def)
  qed
qed

text \<open>
  Claim C6, as amended. \<open>make_svn_diff\<close> returns \<open>None\<close> if and only if \<open>git svn find-rev\<close> ran and
  its output is empty after stripping. When the revision number is not empty the translator
  never returns \<open>None\<close>: it returns the diff text, the text the loop has built, when every
  \<open>diff \<close> line has at least three fields, and it raises IndexError when some \<open>diff \<close> line has
  fewer. When \<open>git svn find-rev\<close> fails, the call ends with that failure.
\<close>

theorem make_svn_diff_nil:
  "(make_svn_diff run self ancestor ls = Inr None \<longleftrightarrow>
      (\<exists>out. execute run [git self, ''svn'', ''find-rev'', ancestor] = Inr out \<and> py_strip out = [])) \<and>
   (execute run [git self, ''svn'', ''find-rev'', ancestor] = Inr out \<and> py_strip out \<noteq> [] \<and>
    (\<forall>l\<in>set ls. startswith l ''diff '' \<longrightarrow> 3 \<le> length (py_split CHR '' '' l)) \<longrightarrow>
      (\<exists>st. svn_diff_lines (py_strip out) \<lparr>diff_data = [], filename = [], newfile = False\<rparr> ls = Inr st \<and>
            make_svn_diff run self ancestor ls = Inr (Some (diff_data st)))) \<and>
   (execute run [git self, ''svn'', ''find-rev'', ancestor] = Inr out \<and> py_strip out \<noteq> [] \<and>
    (\<exists>l\<in>set ls. startswith l ''diff '' \<and> length (py_split CHR '' '' l) < 3) \<longrightarrow>
      make_svn_diff run self ancestor ls = Inl IndexError) \<and>
   (execute run [git self, ''svn'', ''find-rev'', ancestor] = Inl e \<longrightarrow>
      make_svn_diff run self ancestor ls = Inl e)"
proof (intro conjI impI)
  show "make_svn_diff run self ancestor ls = Inr None \<longleftrightarrow>
      (\<exists>out. execute run [git self, ''svn'', ''find-rev'', ancestor] = Inr out \<and> py_strip out = [])"
    by (auto simp: make_svn_diff_def bind_def Let_def split: sum.splits)
next
  assume a: "execute run [git self, ''svn'', ''find-rev'', ancestor] = Inr out \<and> py_strip out \<noteq> [] \<and>
    (\<forall>l\<in>set ls. startswith l ''diff '' \<longrightarrow> 3 \<le> length (py_split CHR '' '' l))"
  then obtain st' where "svn_diff_lines (py_strip out) \<lparr>diff_data = [], filename = [], newfile = False\<rparr> ls = Inr st'"
    using svn_diff_lines_total by blast
  with a show "\<exists>st. svn_diff_lines (py_strip out) \<lparr>diff_data = [], filename = [], newfile = False\<rparr> ls = Inr st \<and>
            make_svn_diff run self ancestor ls = Inr (Some (diff_data st))"
    by (auto simp: make_svn_diff_def bind_def Let_def)
next
  assume a: "execute run [git self, ''svn'', ''find-rev'', ancestor] = Inr out \<and> py_strip out \<noteq> [] \<and>
    (\<exists>l\<in>set ls. startswith l ''diff '' \<and> length (py_split CHR '' '' l) < 3)"
  then have "svn_diff_lines (py_strip out) \<lparr>diff_data = [], filename = [], newfile = False\<rparr> ls = Inl IndexError"
    using svn_diff_lines_raise by blast
  with a show "make_svn_diff run self ancestor ls = Inl IndexError"
    by (auto simp: make_svn_diff_def bind_def Let_def)
next
  assume "execute run [git self, ''svn'', ''find-rev'', ancestor] = Inl e"
  then show "make_svn_diff run self ancestor ls = Inl e"
    by (simp add: make_svn_diff_def bind_def)
qed

theorem make_svn_diff_nil_witness:
  "execute demo_run [git demo_client, ''svn'', ''find-rev'', ''topic''] = Inr (''1234'' @ [LF]) \<and>
   py_strip (''1234'' @ [LF]) = ''1234'' \<and>
   3 \<le> length (py_split CHR '' '' (''diff --git a.c a.c'' @ [LF])) \<and>
   (\<exists>st. svn_diff_lines (py_strip (''1234'' @ [LF]))
            \<lparr>diff_data = [], filename = [], newfile = False\<rparr>
            [''diff --git a.c a.c'' @ [LF], ''+x'' @ [LF]] = Inr st \<and>
         make_svn_diff demo_run demo_client ''topic'' [''diff --git a.c a.c'' @ [LF], ''+x'' @ [LF]]
          = Inr (Some (diff_data st))) \<and>
   make_svn_diff demo_run demo_client ''topic'' [''diff --git a.c a.c'' @ [LF], ''+x'' @ [LF]] =
     Inr (Some (''Index: a.c'' @ [LF]
                @ ''==================================================================='' @ [LF]
                @ ''+x'' @ [LF])) \<and>
   length (py_split CHR '' '' (''diff a.c'' @ [LF])) < 3 \<and>
   make_svn_diff demo_run demo_client ''topic'' [''+x'' @ [LF], ''diff a.c'' @ [LF], ''+y'' @ [LF]]
     = Inl IndexError \<and>
   execute demo_run [git demo_client, ''svn'', ''find-rev'', ''mb0''] = Inr [] \<and>
   make_svn_diff demo_run demo_client ''mb0'' [''diff --git a.c a.c'' @ [LF], ''+x'' @ [LF]] = Inr None \<and>
   execute (\<lambda>cmd. (1, [])) [git demo_client, ''svn'', ''find-rev'', ''topic'']
     = Inl (Died [git demo_client, ''svn'', ''find-rev'', ''topic'']) \<and>
   make_svn_diff (\<lambda>cmd. (1, [])) demo_client ''topic'' [''+x'' @ [LF]]
     = Inl (Died [git demo_client, ''svn'', ''find-rev'', ''topic''])"
proof -
  let ?ls = "[''diff --git a.c a.c'' @ [LF], ''+x'' @ [LF]]"
  let ?bad = "[''+x'' @ [LF], ''diff a.c'' @ [LF], ''+y'' @ [LF]]"
  have h1: "execute demo_run [git demo_client, ''svn'', ''find-rev'', ''topic''] = Inr (''1234'' @ [LF])"
    by code_simp
  have h2: "py_strip (''1234'' @ [LF]) \<noteq> []" by code_simp
  have h2': "py_strip (''1234'' @ [LF]) = ''1234''" by code_simp
  have h3: "\<forall>l\<in>set ?ls. startswith l ''diff '' \<longrightarrow> 3 \<le> length (py_split CHR '' '' l)"
    by code_simp
  have h4: "execute demo_run [git demo_client, ''svn'', ''find-rev'', ''mb0''] = Inr [] \<and> py_strip [] = []"
    by code_simp
  have h5: "3 \<le> length (py_split CHR '' '' (''diff --git a.c a.c'' @ [LF]))" by code_simp
  have h6: "\<exists>l\<in>set ?bad. startswith l ''diff '' \<and> length (py_split CHR '' '' l) < 3"
    by code_simp
  have h6': "length (py_split CHR '' '' (''diff a.c'' @ [LF])) < 3" by code_simp
  have h7: "execute (\<lambda>cmd. (1, [])) [git demo_client, ''svn'', ''find-rev'', ''topic'']
     = Inl (Died [git demo_client, ''svn'', ''find-rev'', ''topic''])"
    by (simp add: execute_def)
  from make_svn_diff_nil[of demo_run demo_client "''topic''" ?ls "''1234'' @ [LF]"] h1 h2 h3
  have c1: "\<exists>st. svn_diff_lines (py_strip (''1234'' @ [LF]))
            \<lparr>diff_data = [], filename = [], newfile = False\<rparr> ?ls = Inr st \<and>
         make_svn_diff demo_run demo_client ''topic'' ?ls = Inr (Some (diff_data st))" by blast
  have c1': "make_svn_diff demo_run demo_client ''topic'' ?ls =
     Inr (Some (''Index: a.c'' @ [LF]
                @ ''==================================================================='' @ [LF]
                @ ''+x'' @ [LF]))" by code_simp
  from make_svn_diff_nil[of demo_run demo_client "''mb0''" ?ls] h4
  have c2: "make_svn_diff demo_run demo_client ''mb0'' ?ls = Inr None" by blast
  from make_svn_diff_nil[of demo_run demo_client "''topic''" ?bad "''1234'' @ [LF]"] h1 h2 h6
  have c3: "make_svn_diff demo_run demo_client ''topic'' ?bad = Inl IndexError" by blast
  from make_svn_diff_nil[of "\<lambda>cmd. (1, [])" demo_client "''topic''" "[''+x'' @ [LF]]" _
      "Died [git demo_client, ''svn'', ''find-rev'', ''topic'']"] h7
  have c4: "make_svn_diff (\<lambda>cmd. (1, [])) demo_client ''topic'' [''+x'' @ [LF]]
     = Inl (Died [git demo_client, ''svn'', ''find-rev'', ''topic''])" by blast
  from h4 have h4': "execute demo_run [git demo_client, ''svn'', ''find-rev'', ''mb0''] = Inr []" by blast
  show ?thesis
    using h1 h2' h5 c1 c1' h6' c3 h4' c2 h7 c4 by blast
qed

text \<open>
  Claim C6 as stated fails: the revision resolves to \<open>1234\<close>, and the translator returns no
  diff text for the line \<open>diff --stat\<close>; it raises IndexError.
\<close>

theorem make_svn_diff_raises_counterexample:
  "execute demo_run [git demo_client, ''svn'', ''find-rev'', ''topic''] = Inr (''1234'' @ [LF]) \<and>
   py_strip (''1234'' @ [LF]) = ''1234'' \<and>
   make_svn_diff demo_run demo_client ''topic'' [''diff --stat''] = Inl IndexError"
  by code_simp

subsection \<open>Revision ranges of the diffs\<close>

lemma make_svn_diff_fields:
  "git s = git s' \<Longrightarrow> make_svn_diff run s a = make_svn_diff run s' a"
  by (rule ext) (simp add: make_svn_diff_def)

lemma make_diff_fields:
  "git s = git s' \<Longrightarrow> type s = type s' \<Longrightarrow> make_diff run s a c = make_diff run s' a c"
  by (simp add: make_diff_def make_svn_diff_fields[of s s'] Let_def)

lemma make_diff_svn:
  "type self = ''svn'' \<Longrightarrow>
   make_diff run self a c =
     bind (execute_split_lines run
             [git self, ''diff'', ''--no-color'', ''--no-prefix'', ''--no-ext-diff'', ''-r'', ''-u'',
              if c \<noteq> [] then a @ ''..'' @ c else a])
       (make_svn_diff run self a)"
  by (simp add: make_diff_def Let_def)

lemma make_diff_git_eq:
  "type self = ''git'' \<Longrightarrow>
   make_diff run self a c =
     bind (execute run
             [git self, ''diff'', ''--no-color'', ''--full-index'', ''--no-ext-diff'',
              ''--ignore-submodules'', if c \<noteq> [] then a @ ''..'' @ c else a])
       (\<lambda>d. Inr (Some d))"
  by (simp add: make_diff_def Let_def)

lemma set_guesses_fields:
  assumes "set_guesses run s r = Inr s'"
  shows "git s' = git s" "type s' = type s" "merge_base s' = merge_base s"
    "rev_range_for_diff s' = rev_range_for_diff s" "head_ref s' = head_ref s"
    "upstream_branch s' = upstream_branch s"
  using assms
  by (auto simp: set_guesses_def bind_Inr_iff Let_def split: prod.splits if_splits)

lemma make_diff_git_not_None: "type self = ''git'' \<Longrightarrow> make_diff run self a c \<noteq> Inr None"
  by (auto simp: make_diff_git_eq bind_def split: sum.splits)

lemma make_diff_svn_None:
  "type self = ''svn'' \<Longrightarrow>
   make_diff run self a c = Inr None \<longleftrightarrow>
     (\<exists>ls out. execute_split_lines run
                  [git self, ''diff'', ''--no-color'', ''--no-prefix'', ''--no-ext-diff'', ''-r'', ''-u'',
                   if c \<noteq> [] then a @ ''..'' @ c else a] = Inr ls \<and>
               execute run [git self, ''svn'', ''find-rev'', a] = Inr out \<and> py_strip out = [])"
  by (auto simp: make_diff_svn bind_Inr_iff make_svn_diff_def Let_def split: if_splits)

lemma set_guesses_make_diff:
  "set_guesses run s r = Inr s' \<Longrightarrow> \<forall>a c. make_diff run s' a c = make_diff run s a c"
  by (intro allI, rule make_diff_fields) (simp_all add: set_guesses_fields)

lemma make_diff_updated:
  "make_diff run (s\<lparr>merge_base := m, rev_range_for_diff := q\<rparr>) a c = make_diff run s a c"
  by (rule make_diff_fields) simp_all

lemma make_diff_merge_base:
  "make_diff run (s\<lparr>merge_base := m\<rparr>) a c = make_diff run s a c"
  by (rule make_diff_fields) simp_all

lemma diff_between_revisions_single:
  assumes "\<not> py_in '':'' R"
  shows "diff_between_revisions run self R args info =
     bind (execute run [git self, ''merge-base'', upstream_branch self,
                        if head_ref self \<noteq> [] then head_ref self else ''HEAD'']) (\<lambda>out.
     bind (execute run [git self, ''branch'', ''-r'', ''--contains'', R]) (\<lambda>contained.
     bind (if contained = [] then make_diff run self (py_strip out) R else Inr None) (\<lambda>p.
     bind (set_guesses run (self\<lparr>merge_base := py_strip out,
                                rev_range_for_diff := Some (R, ''HEAD'')\<rparr>) (R, ''HEAD'')) (\<lambda>s'.
     bind (make_diff run s' R []) (\<lambda>d. Inr ((d, p), s'))))))"
  unfolding diff_between_revisions_def Let_def
  using assms by (simp add: make_diff_merge_base cong: if_cong)

text \<open>
  Claim C2, as amended. In parent-branch mode (\<open>options.parent_branch\<close> is a non-empty string
  \<open>pb\<close>), \<open>diff\<close> returns exactly when \<open>git merge-base upstream_branch head_ref\<close> and the two diffs
  succeed; \<open>merge_base\<close> is the stripped output of that command; the primary diff is
  \<open>make_diff(pb)\<close>, that is \<open>git diff\<close> run on the single revision \<open>pb\<close> (the working tree against
  \<open>pb\<close>; \<open>head_ref\<close> is not part of the command); the parent diff is
  \<open>make_diff(merge_base, pb)\<close>, that is \<open>git diff\<close> run on the range \<open>merge_base..pb\<close>.
\<close>

theorem diff_parent_branch_mode:
  assumes "parent_branch (options self) = Some pb" and "pb \<noteq> []"
  shows "(diff run self args = Inr ((diff_lines, parent_diff_lines), self') \<longleftrightarrow>
     (\<exists>out. execute run [git self, ''merge-base'', upstream_branch self,
                         if head_ref self \<noteq> [] then head_ref self else ''HEAD''] = Inr out \<and>
        make_diff run self pb [] = Inr diff_lines \<and>
        make_diff run self (py_strip out) pb = Inr parent_diff_lines \<and>
        set_guesses run (self\<lparr>merge_base := py_strip out,
                              rev_range_for_diff := Some (pb, ''HEAD'')\<rparr>) (pb, ''HEAD'')
          = Inr self')) \<and>
   (type self = ''git'' \<longrightarrow>
      make_diff run self pb [] =
        bind (execute run [git self, ''diff'', ''--no-color'', ''--full-index'', ''--no-ext-diff'',
                           ''--ignore-submodules'', pb]) (\<lambda>d. Inr (Some d)) \<and>
      make_diff run self mb pb =
        bind (execute run [git self, ''diff'', ''--no-color'', ''--full-index'', ''--no-ext-diff'',
                           ''--ignore-submodules'', mb @ ''..'' @ pb]) (\<lambda>d. Inr (Some d))) \<and>
   (type self = ''svn'' \<longrightarrow>
      make_diff run self pb [] =
        bind (execute_split_lines run [git self, ''diff'', ''--no-color'', ''--no-prefix'',
                                       ''--no-ext-diff'', ''-r'', ''-u'', pb])
          (make_svn_diff run self pb) \<and>
      make_diff run self mb pb =
        bind (execute_split_lines run [git self, ''diff'', ''--no-color'', ''--no-prefix'',
                                       ''--no-ext-diff'', ''-r'', ''-u'', mb @ ''..'' @ pb])
          (make_svn_diff run self mb))"
proof -
  have t: "truthy (parent_branch (options self))" "str_of (parent_branch (options self)) = pb"
    using assms by (simp_all add: truthy_def str_of_def)
  have f: "make_diff run (self\<lparr>merge_base := m\<rparr>) a c = make_diff run self a c" for m a c
    by (rule make_diff_fields) simp_all
  have main: "diff run self args = Inr ((diff_lines, parent_diff_lines), self') \<longleftrightarrow>
     (\<exists>out. execute run [git self, ''merge-base'', upstream_branch self,
                         if head_ref self \<noteq> [] then head_ref self else ''HEAD''] = Inr out \<and>
        make_diff run self pb [] = Inr diff_lines \<and>
        make_diff run self (py_strip out) pb = Inr parent_diff_lines \<and>
        set_guesses run (self\<lparr>merge_base := py_strip out,
                              rev_range_for_diff := Some (pb, ''HEAD'')\<rparr>) (pb, ''HEAD'')
          = Inr self')"
    unfolding diff_def Let_def
    by (simp add: t f bind_Inr_iff)
  show ?thesis
    using main assms(2) by (simp add: make_diff_git_eq make_diff_svn)
qed

theorem diff_parent_branch_mode_witness:
  "parent_branch (options demo_parent_client) = Some ''feature-base'' \<and> ''feature-base'' \<noteq> [] \<and>
   type demo_parent_client = ''git'' \<and>
   diff demo_run demo_parent_client [] =
     Inr ((Some (''+changes of feature-base'' @ [LF]),
           Some (''+changes of mb0..feature-base'' @ [LF])),
          demo_parent_client\<lparr>merge_base := ''mb0'',
             rev_range_for_diff := Some (''feature-base'', ''HEAD''),
             options := demo_options\<lparr>parent_branch := Some ''feature-base'', guess_summary := True,
                                     summary := Some ''Fix the parser''\<rparr>\<rparr>)"
proof -
  let ?c = "demo_parent_client"
  let ?c' = "demo_parent_client\<lparr>merge_base := ''mb0'',
             rev_range_for_diff := Some (''feature-base'', ''HEAD''),
             options := demo_options\<lparr>parent_branch := Some ''feature-base'', guess_summary := True,
                                     summary := Some ''Fix the parser''\<rparr>\<rparr>"
  have h1: "parent_branch (options ?c) = Some ''feature-base''" by code_simp
  have h2: "''feature-base'' \<noteq> []" by simp
  have h3: "type ?c = ''git''" by code_simp
  have e1: "execute demo_run [git ?c, ''merge-base'', upstream_branch ?c,
                         if head_ref ?c \<noteq> [] then head_ref ?c else ''HEAD''] = Inr (''mb0'' @ [LF])"
    by code_simp
  have e2: "make_diff demo_run ?c ''feature-base'' [] = Inr (Some (''+changes of feature-base'' @ [LF]))"
    by code_simp
  have e3: "make_diff demo_run ?c (py_strip (''mb0'' @ [LF])) ''feature-base''
              = Inr (Some (''+changes of mb0..feature-base'' @ [LF]))"
    by code_simp
  have e4: "set_guesses demo_run (?c\<lparr>merge_base := py_strip (''mb0'' @ [LF]),
                              rev_range_for_diff := Some (''feature-base'', ''HEAD'')\<rparr>)
               (''feature-base'', ''HEAD'') = Inr ?c'"
    by code_simp
  have "diff demo_run ?c [] =
     Inr ((Some (''+changes of feature-base'' @ [LF]),
           Some (''+changes of mb0..feature-base'' @ [LF])), ?c')"
    using diff_parent_branch_mode[OF h1 h2, of demo_run "[]" "Some (''+changes of feature-base'' @ [LF])"
        "Some (''+changes of mb0..feature-base'' @ [LF])" ?c' "[]"] e1 e2 e3 e4
    by blast
  with h1 h2 h3 show ?thesis by blast
qed

text \<open>
  Claim C2 as stated fails: with a repository whose \<open>git diff\<close> tells a single revision from a
  range, the primary diff of parent-branch mode is the diff of \<open>feature-base\<close> alone and not the
  diff of the range \<open>feature-base..refs/heads/topic\<close>.
\<close>

theorem diff_parent_branch_primary_range_counterexample:
  "parent_branch (options demo_parent_client) = Some ''feature-base'' \<and>
   head_ref demo_parent_client = ''refs/heads/topic'' \<and>
   map_sum id (fst \<circ> fst) (diff demo_run demo_parent_client []) =
     Inr (Some (''+changes of feature-base'' @ [LF])) \<and>
   make_diff demo_run demo_parent_client ''feature-base'' ''refs/heads/topic'' =
     Inr (Some (''+changes of feature-base..refs/heads/topic'' @ [LF])) \<and>
   map_sum id (fst \<circ> fst) (diff demo_run demo_parent_client []) \<noteq>
     make_diff demo_run demo_parent_client ''feature-base'' ''refs/heads/topic''"
  by code_simp

text \<open>
  Claim C1, as amended. In explicit single-revision mode (no \<open>:\<close> in the range string \<open>R\<close>),
  \<open>diff_between_revisions\<close> returns exactly when its commands succeed; the primary diff is
  \<open>make_diff(R)\<close>, that is \<open>git diff\<close> run on the single revision \<open>R\<close> (\<open>head_ref\<close> is not part of
  the command); the parent diff is \<open>make_diff(merge_base, R)\<close>, over the range \<open>merge_base..R\<close>, if
  the output of \<open>git branch -r --contains R\<close> is empty, and \<open>None\<close> otherwise. That parent diff is
  never \<open>None\<close> for a git repository; for a git-svn repository it is \<open>None\<close> exactly when the
  merge base has no SVN revision number.
\<close>

theorem diff_single_revision_mode:
  assumes "\<not> py_in '':'' R"
  shows "(diff_between_revisions run self R args info = Inr ((diff_lines, parent_diff_lines), self') \<longleftrightarrow>
     (\<exists>out contained.
        execute run [git self, ''merge-base'', upstream_branch self,
                     if head_ref self \<noteq> [] then head_ref self else ''HEAD''] = Inr out \<and>
        execute run [git self, ''branch'', ''-r'', ''--contains'', R] = Inr contained \<and>
        (if contained = [] then make_diff run self (py_strip out) R = Inr parent_diff_lines
         else parent_diff_lines = None) \<and>
        set_guesses run (self\<lparr>merge_base := py_strip out,
                              rev_range_for_diff := Some (R, ''HEAD'')\<rparr>) (R, ''HEAD'') = Inr self' \<and>
        make_diff run self R [] = Inr diff_lines)) \<and>
   (type self = ''git'' \<longrightarrow>
      make_diff run self R [] =
        bind (execute run [git self, ''diff'', ''--no-color'', ''--full-index'', ''--no-ext-diff'',
                           ''--ignore-submodules'', R]) (\<lambda>d. Inr (Some d)) \<and>
      make_diff run self mb R =
        bind (execute run [git self, ''diff'', ''--no-color'', ''--full-index'', ''--no-ext-diff'',
                           ''--ignore-submodules'', if R \<noteq> [] then mb @ ''..'' @ R else mb])
          (\<lambda>d. Inr (Some d)) \<and>
      make_diff run self mb R \<noteq> Inr None) \<and>
   (type self = ''svn'' \<longrightarrow>
      make_diff run self R [] =
        bind (execute_split_lines run [git self, ''diff'', ''--no-color'', ''--no-prefix'',
                                       ''--no-ext-diff'', ''-r'', ''-u'', R])
          (make_svn_diff run self R) \<and>
      make_diff run self mb R =
        bind (execute_split_lines run [git self, ''diff'', ''--no-color'', ''--no-prefix'',
                                       ''--no-ext-diff'', ''-r'', ''-u'',
                                       if R \<noteq> [] then mb @ ''..'' @ R else mb])
          (make_svn_diff run self mb) \<and>
      (make_diff run self mb R = Inr None \<longleftrightarrow>
         (\<exists>ls out. execute_split_lines run
                      [git self, ''diff'', ''--no-color'', ''--no-prefix'', ''--no-ext-diff'', ''-r'',
                       ''-u'', if R \<noteq> [] then mb @ ''..'' @ R else mb] = Inr ls \<and>
                   execute run [git self, ''svn'', ''find-rev'', mb] = Inr out \<and>
                   py_strip out = [])))"
proof -
  let ?s = "self\<lparr>merge_base := py_strip out, rev_range_for_diff := Some (R, ''HEAD'')\<rparr>"
  have main: "diff_between_revisions run self R args info = Inr ((diff_lines, parent_diff_lines), self') \<longleftrightarrow>
     (\<exists>out contained.
        execute run [git self, ''merge-base'', upstream_branch self,
                     if head_ref self \<noteq> [] then head_ref self else ''HEAD''] = Inr out \<and>
        execute run [git self, ''branch'', ''-r'', ''--contains'', R] = Inr contained \<and>
        (if contained = [] then make_diff run self (py_strip out) R = Inr parent_diff_lines
         else parent_diff_lines = None) \<and>
        set_guesses run (self\<lparr>merge_base := py_strip out,
                              rev_range_for_diff := Some (R, ''HEAD'')\<rparr>) (R, ''HEAD'') = Inr self' \<and>
        make_diff run self R [] = Inr diff_lines)" (is "?L \<longleftrightarrow> ?R")
  proof
    assume ?L
    then obtain out contained where
      1: "execute run [git self, ''merge-base'', upstream_branch self,
                     if head_ref self \<noteq> [] then head_ref self else ''HEAD''] = Inr out"
      and 2: "execute run [git self, ''branch'', ''-r'', ''--contains'', R] = Inr contained"
      and 3: "(if contained = [] then make_diff run self (py_strip out) R else Inr None)
                = Inr parent_diff_lines"
      and 4: "set_guesses run (self\<lparr>merge_base := py_strip out,
                              rev_range_for_diff := Some (R, ''HEAD'')\<rparr>) (R, ''HEAD'') = Inr self'"
      and 5: "make_diff run self' R [] = Inr diff_lines"
      by (auto simp: diff_between_revisions_single[OF assms] bind_Inr_iff)
    from set_guesses_make_diff[OF 4] 5 have 6: "make_diff run self R [] = Inr diff_lines"
      by (simp add: make_diff_updated)
    from 3 have 7: "if contained = [] then make_diff run self (py_strip out) R = Inr parent_diff_lines
         else parent_diff_lines = None"
      by (auto split: if_splits)
    from 1 2 7 4 6 show ?R by blast
  next
    assume ?R
    then obtain out contained where
      1: "execute run [git self, ''merge-base'', upstream_branch self,
                     if head_ref self \<noteq> [] then head_ref self else ''HEAD''] = Inr out"
      and 2: "execute run [git self, ''branch'', ''-r'', ''--contains'', R] = Inr contained"
      and 3: "if contained = [] then make_diff run self (py_strip out) R = Inr parent_diff_lines
         else parent_diff_lines = None"
      and 4: "set_guesses run (self\<lparr>merge_base := py_strip out,
                              rev_range_for_diff := Some (R, ''HEAD'')\<rparr>) (R, ''HEAD'') = Inr self'"
      and 6: "make_diff run self R [] = Inr diff_lines"
      by blast
    from set_guesses_make_diff[OF 4] 6 have 5: "make_diff run self' R [] = Inr diff_lines"
      by (simp add: make_diff_updated)
    from 3 have 7: "(if contained = [] then make_diff run self (py_strip out) R else Inr None)
                = Inr parent_diff_lines"
      by (auto split: if_splits)
    show ?L
      unfolding diff_between_revisions_single[OF assms] bind_Inr_iff
      using 1 2 7 4 5 by blast
  qed
  show ?thesis
    using main make_diff_svn_None[of self run mb R] make_diff_git_not_None[of self run mb R]
    by (simp add: make_diff_git_eq make_diff_svn)
qed

theorem diff_single_revision_mode_witness:
  "\<not> py_in '':'' ''topic-base'' \<and> \<not> py_in '':'' ''pushed'' \<and> type demo_client = ''git'' \<and>
   execute demo_run [git demo_client, ''branch'', ''-r'', ''--contains'', ''topic-base''] = Inr [] \<and>
   diff_between_revisions demo_run demo_client ''topic-base'' [] () =
     Inr ((Some (''+changes of topic-base'' @ [LF]), Some (''+changes of mb0..topic-base'' @ [LF])),
          demo_client\<lparr>merge_base := ''mb0'', rev_range_for_diff := Some (''topic-base'', ''HEAD'')\<rparr>) \<and>
   execute demo_run [git demo_client, ''branch'', ''-r'', ''--contains'', ''pushed'']
     = Inr (''  origin/master'' @ [LF]) \<and>
   diff_between_revisions demo_run demo_client ''pushed'' [] () =
     Inr ((Some (''+changes of pushed'' @ [LF]), None),
          demo_client\<lparr>merge_base := ''mb0'', rev_range_for_diff := Some (''pushed'', ''HEAD'')\<rparr>)"
proof -
  let ?c = demo_client
  have h1: "\<not> py_in '':'' ''topic-base''" by code_simp
  have h2: "\<not> py_in '':'' ''pushed''" by code_simp
  have h3: "type ?c = ''git''" by code_simp
  have m: "execute demo_run [git ?c, ''merge-base'', upstream_branch ?c,
                     if head_ref ?c \<noteq> [] then head_ref ?c else ''HEAD''] = Inr (''mb0'' @ [LF])"
    by code_simp
  have a1: "execute demo_run [git ?c, ''branch'', ''-r'', ''--contains'', ''topic-base''] = Inr []"
    by code_simp
  have a2: "make_diff demo_run ?c (py_strip (''mb0'' @ [LF])) ''topic-base''
              = Inr (Some (''+changes of mb0..topic-base'' @ [LF]))" by code_simp
  have a3: "set_guesses demo_run (?c\<lparr>merge_base := py_strip (''mb0'' @ [LF]),
                rev_range_for_diff := Some (''topic-base'', ''HEAD'')\<rparr>) (''topic-base'', ''HEAD'')
              = Inr (?c\<lparr>merge_base := ''mb0'', rev_range_for_diff := Some (''topic-base'', ''HEAD'')\<rparr>)"
    by code_simp
  have a4: "make_diff demo_run ?c ''topic-base'' [] = Inr (Some (''+changes of topic-base'' @ [LF]))"
    by code_simp
  have b1: "execute demo_run [git ?c, ''branch'', ''-r'', ''--contains'', ''pushed'']
              = Inr (''  origin/master'' @ [LF])" by code_simp
  have b1': "''  origin/master'' @ [LF] \<noteq> []" by simp
  have b3: "set_guesses demo_run (?c\<lparr>merge_base := py_strip (''mb0'' @ [LF]),
                rev_range_for_diff := Some (''pushed'', ''HEAD'')\<rparr>) (''pushed'', ''HEAD'')
              = Inr (?c\<lparr>merge_base := ''mb0'', rev_range_for_diff := Some (''pushed'', ''HEAD'')\<rparr>)"
    by code_simp
  have b4: "make_diff demo_run ?c ''pushed'' [] = Inr (Some (''+changes of pushed'' @ [LF]))"
    by code_simp
  have c1: "diff_between_revisions demo_run ?c ''topic-base'' [] () =
     Inr ((Some (''+changes of topic-base'' @ [LF]), Some (''+changes of mb0..topic-base'' @ [LF])),
          ?c\<lparr>merge_base := ''mb0'', rev_range_for_diff := Some (''topic-base'', ''HEAD'')\<rparr>)"
    apply (rule diff_single_revision_mode[OF h1, of demo_run ?c "[]" "()"
        "Some (''+changes of topic-base'' @ [LF])" "Some (''+changes of mb0..topic-base'' @ [LF])"
        "?c\<lparr>merge_base := ''mb0'', rev_range_for_diff := Some (''topic-base'', ''HEAD'')\<rparr>" "[]",
        THEN conjunct1, THEN iffD2])
    apply (rule exI[of _ "''mb0'' @ [LF]"], rule exI[of _ "[]"])
    using m a1 a2 a3 a4 by simp
  have c2: "diff_between_revisions demo_run ?c ''pushed'' [] () =
     Inr ((Some (''+changes of pushed'' @ [LF]), None),
          ?c\<lparr>merge_base := ''mb0'', rev_range_for_diff := Some (''pushed'', ''HEAD'')\<rparr>)"
    apply (rule diff_single_revision_mode[OF h2, of demo_run ?c "[]" "()"
        "Some (''+changes of pushed'' @ [LF])" None
        "?c\<lparr>merge_base := ''mb0'', rev_range_for_diff := Some (''pushed'', ''HEAD'')\<rparr>" "[]",
        THEN conjunct1, THEN iffD2])
    apply (rule exI[of _ "''mb0'' @ [LF]"], rule exI[of _ "''  origin/master'' @ [LF]"])
    using m b1 b3 b4 by simp
  from h1 h2 h3 a1 c1 b1 c2 show ?thesis by blast
qed

text \<open>
  Claim C1 as stated fails: in a git-svn repository where \<open>topic-base\<close> is in no remote branch
  and the merge base has no SVN revision number, the parent diff is \<open>None\<close>; and the primary
  diff is the diff of \<open>topic-base\<close> alone, not that of the range \<open>topic-base..refs/heads/topic\<close>.
\<close>

theorem diff_single_revision_counterexample:
  "\<not> py_in '':'' ''topic-base'' \<and>
   type demo_svn_client = ''svn'' \<and> head_ref demo_svn_client = ''refs/heads/topic'' \<and>
   execute demo_run [git demo_svn_client, ''branch'', ''-r'', ''--contains'', ''topic-base''] = Inr [] \<and>
   map_sum id fst (diff_between_revisions demo_run demo_svn_client ''topic-base'' [] ()) =
     Inr (Some (''+changes of topic-base'' @ [LF]), None) \<and>
   make_diff demo_run demo_svn_client ''topic-base'' ''refs/heads/topic'' =
     Inr (Some (''+changes of topic-base..refs/heads/topic'' @ [LF])) \<and>
   map_sum id (fst \<circ> fst) (diff_between_revisions demo_run demo_svn_client ''topic-base'' [] ()) \<noteq>
     make_diff demo_run demo_svn_client ''topic-base'' ''refs/heads/topic''"
  by code_simp

subsection \<open>Annotating commits\<close>

lemma edit_commits_world:
  "snd (edit_commits repo w self ed cs n) =
     foldl (\<lambda>w commit. snd (update repo w [(''GIT_EDITOR'', ed)] [git self, ''notes'', ''edit'', commit]))
       w cs"
  by (induction cs arbitrary: w n)
     (auto simp: execute_env_none_on_error_def split: prod.splits)

lemma edit_commits_le:
  "fst (edit_commits repo w self ed cs n) \<le> n + length cs"
proof (induction cs arbitrary: w n)
  case Nil
  then show ?case by simp
next
  case (Cons c cs)
  obtain out w' where u: "execute_env_none_on_error repo w [(''GIT_EDITOR'', ed)]
             [git self, ''notes'', ''edit'', c] = (out, w')" by (cases "execute_env_none_on_error repo w [(''GIT_EDITOR'', ed)]
             [git self, ''notes'', ''edit'', c]")
  show ?case
    using Cons.IH[of w' "n + 1"] Cons.IH[of w' n] by (simp add: u)
qed

lemma edit_commits_all_ok:
  assumes "\<forall>w commit. commit \<in> set cs \<longrightarrow>
             fst (fst (update repo w [(''GIT_EDITOR'', ed)] [git self, ''notes'', ''edit'', commit])) = 0"
  shows "fst (edit_commits repo w self ed cs n) = n + length cs"
  using assms
proof (induction cs arbitrary: w n)
  case Nil
  then show ?case by simp
next
  case (Cons c cs)
  obtain rc ls w' where u: "update repo w [(''GIT_EDITOR'', ed)] [git self, ''notes'', ''edit'', c] = ((rc, ls), w')"
    by (metis prod.exhaust)
  from Cons.prems u have rc: "rc = 0" by (metis fst_conv list.set_intros(1))
  have "fst (edit_commits repo w' self ed cs (n + 1)) = (n + 1) + length cs"
    using Cons.IH[of w' "n + 1"] Cons.prems by simp
  then show ?case by (simp add: execute_env_none_on_error_def u rc)
qed

lemma py_splitlines_Nil: "py_splitlines [] = []"
  by (simp add: py_splitlines_def)

lemma update_commits_existing:
  assumes "rev_range_for_diff self = Some (r1, r2)"
    and "execute_split_lines_none_on_error (query repo w)
           [git self, ''rev-list'', ''--reverse'', r1 @ ''..'' @ r2] = Some (c # cs)"
    and "existing_reviewed_by
           (execute_none_on_error (query repo w) [git self, ''notes'', ''show'', py_strip c])
           review_url = Some line"
  shows "update_commits_with_reviewer_info repo w self opts review_url =
           edit_commits repo w self (git_editor_cmd line) (map py_strip cs) 1"
  using assms by (simp add: update_commits_with_reviewer_info_def Let_def)

text \<open>
  Claim C9. When the notes of the oldest commit of the range have a line that starts with
  \<open>Reviewed-By: \<close> and contains the review URL, \<open>update_commits_with_reviewer_info\<close> runs
  \<open>git notes edit\<close> on every remaining commit, in order, with an editor command that prints that
  line verbatim; the oldest commit counts as one update and is not edited, and the text built
  from \<open>target_people\<close> and \<open>target_groups\<close> plays no part (the options do not occur on the
  right-hand sides).
\<close>

theorem existing_reviewed_by_is_adopted:
  assumes "rev_range_for_diff self = Some (r1, r2)"
    and "execute_split_lines_none_on_error (query repo w)
           [git self, ''rev-list'', ''--reverse'', r1 @ ''..'' @ r2] = Some (c # cs)"
    and "execute_none_on_error (query repo w) [git self, ''notes'', ''show'', py_strip c] = Some out"
    and "find (\<lambda>l. startswith l ''Reviewed-By: '' \<and> py_in review_url l) (py_splitlines out)
           = Some line"
  shows "update_commits_with_reviewer_info repo w self opts review_url =
           edit_commits repo w self (git_editor_cmd line) (map py_strip cs) 1 \<and>
         snd (update_commits_with_reviewer_info repo w self opts review_url) =
           foldl (\<lambda>w commit. snd (update repo w
                     [(''GIT_EDITOR'',
                       ''sh -c '' @ [DQUOTE] @ ''perl -nli -e '' @ [BACKSLASH, DQUOTE]
                       @ ''print unless /Reviewed-By: /i; if (eof) { print; print q{'' @ line
                       @ ''} }'' @ [BACKSLASH, DQUOTE] @ '' '' @ [BACKSLASH, DQUOTE] @ ''$1''
                       @ [BACKSLASH, DQUOTE] @ [DQUOTE])]
                     [git self, ''notes'', ''edit'', commit]))
             w (map py_strip cs)"
proof -
  have ne: "out \<noteq> []" using assms(4) by (auto simp: py_splitlines_Nil)
  have ex: "existing_reviewed_by
           (execute_none_on_error (query repo w) [git self, ''notes'', ''show'', py_strip c])
           review_url = Some line"
    using assms(3,4) ne by (simp add: existing_reviewed_by_def truthy_def str_of_def)
  have a: "update_commits_with_reviewer_info repo w self opts review_url =
           edit_commits repo w self (git_editor_cmd line) (map py_strip cs) 1"
    by (rule update_commits_existing[OF assms(1,2) ex])
  have b: "git_editor_cmd line = ''sh -c '' @ [DQUOTE] @ ''perl -nli -e '' @ [BACKSLASH, DQUOTE]
                       @ ''print unless /Reviewed-By: /i; if (eof) { print; print q{'' @ line
                       @ ''} }'' @ [BACKSLASH, DQUOTE] @ '' '' @ [BACKSLASH, DQUOTE] @ ''$1''
                       @ [BACKSLASH, DQUOTE] @ [DQUOTE]"
    by (simp add: git_editor_cmd_def perlcmd_def)
  show ?thesis
    unfolding a edit_commits_world b by simp
qed

theorem existing_reviewed_by_is_adopted_witness:
  "rev_range_for_diff demo_review_client = Some (''mb0'', ''HEAD'') \<and>
   execute_split_lines_none_on_error (query demo_repo demo_world1)
     [git demo_review_client, ''rev-list'', ''--reverse'', ''mb0'' @ ''..'' @ ''HEAD'']
     = Some ((''c1'' @ [LF]) # [''c2'' @ [LF]]) \<and>
   execute_none_on_error (query demo_repo demo_world1)
     [git demo_review_client, ''notes'', ''show'', py_strip (''c1'' @ [LF])]
     = Some (''Reviewed-By: alice <http://rb/r/1>'' @ [LF]) \<and>
   find (\<lambda>l. startswith l ''Reviewed-By: '' \<and> py_in ''http://rb/r/1'' l)
     (py_splitlines (''Reviewed-By: alice <http://rb/r/1>'' @ [LF]))
     = Some ''Reviewed-By: alice <http://rb/r/1>'' \<and>
   update_commits_with_reviewer_info demo_repo demo_world1 demo_review_client
       (demo_options\<lparr>target_people := Some ''bob''\<rparr>) ''http://rb/r/1'' =
     edit_commits demo_repo demo_world1 demo_review_client
       (git_editor_cmd ''Reviewed-By: alice <http://rb/r/1>'') (map py_strip [''c2'' @ [LF]]) 1 \<and>
   map_of (note_of (snd (update_commits_with_reviewer_info demo_repo demo_world1 demo_review_client
       (demo_options\<lparr>target_people := Some ''bob''\<rparr>) ''http://rb/r/1''))) ''c2'' =
     Some (''Tested on staging'' @ [LF] @ ''Reviewed-By: alice <http://rb/r/1>'' @ [LF])"
proof -
  have h1: "rev_range_for_diff demo_review_client = Some (''mb0'', ''HEAD'')" by code_simp
  have h2: "execute_split_lines_none_on_error (query demo_repo demo_world1)
     [git demo_review_client, ''rev-list'', ''--reverse'', ''mb0'' @ ''..'' @ ''HEAD'']
     = Some ((''c1'' @ [LF]) # [''c2'' @ [LF]])" by code_simp
  have h3: "execute_none_on_error (query demo_repo demo_world1)
     [git demo_review_client, ''notes'', ''show'', py_strip (''c1'' @ [LF])]
     = Some (''Reviewed-By: alice <http://rb/r/1>'' @ [LF])" by code_simp
  have h4: "find (\<lambda>l. startswith l ''Reviewed-By: '' \<and> py_in ''http://rb/r/1'' l)
     (py_splitlines (''Reviewed-By: alice <http://rb/r/1>'' @ [LF]))
     = Some ''Reviewed-By: alice <http://rb/r/1>''" by code_simp
  note c = existing_reviewed_by_is_adopted[OF h1 h2 h3 h4,
      of "demo_options\<lparr>target_people := Some ''bob''\<rparr>", THEN conjunct1]
  have e: "map_of (note_of (snd (update_commits_with_reviewer_info demo_repo demo_world1 demo_review_client
       (demo_options\<lparr>target_people := Some ''bob''\<rparr>) ''http://rb/r/1''))) ''c2'' =
     Some (''Tested on staging'' @ [LF] @ ''Reviewed-By: alice <http://rb/r/1>'' @ [LF])"
    by code_simp
  from h1 h2 h3 h4 c e show ?thesis by blast
qed

text \<open>
  Claim C7, as amended. Let a first run have annotated every commit of the range, and let
  the notes of the oldest commit then carry a \<open>Reviewed-By: \<close> line with the review URL. A second
  run does not edit the oldest commit and counts it; it runs \<open>git notes edit\<close> once more on each
  of the other commits, so it makes no edit only when the range has one commit. Its count is at
  most that of the first run, and equal to it when those edits succeed.
\<close>

theorem rerun_after_annotation:
  assumes "rev_range_for_diff self = Some (r1, r2)"
    and "update_commits_with_reviewer_info repo w0 self opts review_url = (n1, w1)"
    and "execute_split_lines_none_on_error (query repo w0)
           [git self, ''rev-list'', ''--reverse'', r1 @ ''..'' @ r2] = Some (c # cs)"
    and "n1 = length (c # cs)"
    and "execute_split_lines_none_on_error (query repo w1)
           [git self, ''rev-list'', ''--reverse'', r1 @ ''..'' @ r2] = Some (c # cs)"
    and "existing_reviewed_by
           (execute_none_on_error (query repo w1) [git self, ''notes'', ''show'', py_strip c])
           review_url = Some line"
  shows "snd (update_commits_with_reviewer_info repo w1 self opts' review_url) =
           foldl (\<lambda>w commit. snd (update repo w [(''GIT_EDITOR'', git_editor_cmd line)]
                                     [git self, ''notes'', ''edit'', commit]))
             w1 (map py_strip cs) \<and>
         fst (update_commits_with_reviewer_info repo w1 self opts' review_url) \<le> n1 \<and>
         ((\<forall>w commit. commit \<in> set (map py_strip cs) \<longrightarrow>
              fst (fst (update repo w [(''GIT_EDITOR'', git_editor_cmd line)]
                          [git self, ''notes'', ''edit'', commit])) = 0) \<longrightarrow>
          fst (update_commits_with_reviewer_info repo w1 self opts' review_url) = n1)"
proof -
  have a: "update_commits_with_reviewer_info repo w1 self opts' review_url =
           edit_commits repo w1 self (git_editor_cmd line) (map py_strip cs) 1"
    by (rule update_commits_existing[OF assms(1,5,6)])
  show ?thesis
    unfolding a
    using edit_commits_le[of repo w1 self "git_editor_cmd line" "map py_strip cs" 1]
      edit_commits_all_ok[of "map py_strip cs" repo "git_editor_cmd line" self w1 1] assms(4)
    by (simp add: edit_commits_world)
qed

theorem rerun_after_annotation_witness:
  "rev_range_for_diff demo_review_client = Some (''mb0'', ''HEAD'') \<and>
   update_commits_with_reviewer_info demo_repo demo_world0 demo_review_client demo_options
     ''http://rb/r/1'' = (2, demo_world1) \<and>
   execute_split_lines_none_on_error (query demo_repo demo_world0)
     [git demo_review_client, ''rev-list'', ''--reverse'', ''mb0'' @ ''..'' @ ''HEAD'']
     = Some ((''c1'' @ [LF]) # [''c2'' @ [LF]]) \<and>
   execute_split_lines_none_on_error (query demo_repo demo_world1)
     [git demo_review_client, ''rev-list'', ''--reverse'', ''mb0'' @ ''..'' @ ''HEAD'']
     = Some ((''c1'' @ [LF]) # [''c2'' @ [LF]]) \<and>
   existing_reviewed_by
     (execute_none_on_error (query demo_repo demo_world1)
        [git demo_review_client, ''notes'', ''show'', py_strip (''c1'' @ [LF])])
     ''http://rb/r/1'' = Some ''Reviewed-By: alice <http://rb/r/1>'' \<and>
   fst (update_commits_with_reviewer_info demo_repo demo_world1 demo_review_client demo_options
          ''http://rb/r/1'') = 2 \<and>
   snd (update_commits_with_reviewer_info demo_repo demo_world1 demo_review_client demo_options
          ''http://rb/r/1'') =
     foldl (\<lambda>w commit. snd (update demo_repo w
               [(''GIT_EDITOR'', git_editor_cmd ''Reviewed-By: alice <http://rb/r/1>'')]
               [git demo_review_client, ''notes'', ''edit'', commit]))
       demo_world1 (map py_strip [''c2'' @ [LF]])"
proof -
  let ?run1 = "update_commits_with_reviewer_info demo_repo demo_world0 demo_review_client demo_options
     ''http://rb/r/1''"
  have h1: "rev_range_for_diff demo_review_client = Some (''mb0'', ''HEAD'')" by code_simp
  have f1: "fst ?run1 = 2" by code_simp
  have s1: "snd ?run1 = demo_world1" by (simp add: demo_world1_def)
  have h2: "?run1 = (2, demo_world1)" using f1 s1 by (metis prod.collapse)
  have h3: "execute_split_lines_none_on_error (query demo_repo demo_world0)
     [git demo_review_client, ''rev-list'', ''--reverse'', ''mb0'' @ ''..'' @ ''HEAD'']
     = Some ((''c1'' @ [LF]) # [''c2'' @ [LF]])" by code_simp
  have h4: "(2::nat) = length ((''c1'' @ [LF]) # [''c2'' @ [LF]])" by simp
  have h5: "execute_split_lines_none_on_error (query demo_repo demo_world1)
     [git demo_review_client, ''rev-list'', ''--reverse'', ''mb0'' @ ''..'' @ ''HEAD'']
     = Some ((''c1'' @ [LF]) # [''c2'' @ [LF]])" by code_simp
  have h6: "existing_reviewed_by
     (execute_none_on_error (query demo_repo demo_world1)
        [git demo_review_client, ''notes'', ''show'', py_strip (''c1'' @ [LF])])
     ''http://rb/r/1'' = Some ''Reviewed-By: alice <http://rb/r/1>''" by code_simp
  have h7: "\<forall>w commit. commit \<in> set (map py_strip [''c2'' @ [LF]]) \<longrightarrow>
              fst (fst (update demo_repo w
                     [(''GIT_EDITOR'', git_editor_cmd ''Reviewed-By: alice <http://rb/r/1>'')]
                     [git demo_review_client, ''notes'', ''edit'', commit])) = 0"
    by (simp add: demo_repo_def)
  note c = rerun_after_annotation[OF h1 h2 h3 h4 h5 h6, of demo_options]
  from c h7 have c1: "fst (update_commits_with_reviewer_info demo_repo demo_world1 demo_review_client
          demo_options ''http://rb/r/1'') = 2" by blast
  from c have c2: "snd (update_commits_with_reviewer_info demo_repo demo_world1 demo_review_client
          demo_options ''http://rb/r/1'') =
     foldl (\<lambda>w commit. snd (update demo_repo w
               [(''GIT_EDITOR'', git_editor_cmd ''Reviewed-By: alice <http://rb/r/1>'')]
               [git demo_review_client, ''notes'', ''edit'', commit]))
       demo_world1 (map py_strip [''c2'' @ [LF]])" by blast
  from h1 h2 h3 h5 h6 c1 c2 show ?thesis by blast
qed

text \<open>
  Claim C7 as stated fails: on a range of two commits that a first run has annotated, the
  second run returns the same count, 2, and runs \<open>git notes edit\<close> on the second commit again.
\<close>

theorem rerun_edits_again_counterexample:
  "update_commits_with_reviewer_info demo_repo demo_world0 demo_review_client demo_options
     ''http://rb/r/1'' = (2, demo_world1) \<and>
   edits demo_world1 = [''c1'', ''c2''] \<and>
   fst (update_commits_with_reviewer_info demo_repo demo_world1 demo_review_client demo_options
          ''http://rb/r/1'') = 2 \<and>
   edits (snd (update_commits_with_reviewer_info demo_repo demo_world1 demo_review_client
                 demo_options ''http://rb/r/1'')) = [''c1'', ''c2'', ''c2''] \<and>
   edits (snd (update_commits_with_reviewer_info demo_repo demo_world1 demo_review_client
                 demo_options ''http://rb/r/1'')) \<noteq> edits demo_world1"
proof -
  let ?run1 = "update_commits_with_reviewer_info demo_repo demo_world0 demo_review_client demo_options
     ''http://rb/r/1''"
  have f1: "fst ?run1 = 2" by code_simp
  have s1: "snd ?run1 = demo_world1" by (simp add: demo_world1_def)
  have a: "?run1 = (2, demo_world1)" using f1 s1 by (metis prod.collapse)
  have b: "edits demo_world1 = [''c1'', ''c2'']" by code_simp
  have c: "fst (update_commits_with_reviewer_info demo_repo demo_world1 demo_review_client demo_options
          ''http://rb/r/1'') = 2" by code_simp
  have d: "edits (snd (update_commits_with_reviewer_info demo_repo demo_world1 demo_review_client
                 demo_options ''http://rb/r/1'')) = [''c1'', ''c2'', ''c2'']" by code_simp
  have e: "edits (snd (update_commits_with_reviewer_info demo_repo demo_world1 demo_review_client
                 demo_options ''http://rb/r/1'')) \<noteq> edits demo_world1"
    unfolding d b by simp
  from a b c d e show ?thesis by blast
qed

subsection \<open>The eight forms of a plain repository path\<close>

text \<open>
  What the pattern does on the URLs it was written for. For a repository path without a
  newline and without \<open>@\<close>, whose end is not a character followed by \<open>git\<close>, each of its eight
  forms is expanded to the same list of all eight, so the expansion does not depend on the
  form that is configured.
\<close>

lemma LF_neq [simp]: "LF \<noteq> CHR ''.''" "LF \<noteq> CHR ''g''" "LF \<noteq> CHR ''i''" "LF \<noteq> CHR ''t''"
  "CHR ''.'' \<noteq> LF" "LF \<noteq> CHR ''/''" "LF \<noteq> CHR ''c''" "LF \<noteq> CHR ''o''" "LF \<noteq> CHR ''m''"
  "LF \<noteq> CHR ''h''" "LF \<noteq> CHR ''u''" "LF \<noteq> CHR ''b''" "LF \<noteq> CHR '':''"
  by (simp_all add: LF_def)

lemma star_lazy_Dot:
  "length s \<le> n \<Longrightarrow> LF \<notin> set s \<Longrightarrow>
   star_lazy (matches Dot) n (s, g) = map (\<lambda>t. (t, g)) (remainders s)"
proof (induction n arbitrary: s)
  case 0
  then show ?case by simp
next
  case (Suc n)
  show ?case
  proof (cases s)
    case Nil
    then show ?thesis by simp
  next
    case (Cons d t)
    with Suc.prems have "length t \<le> n" "LF \<notin> set t" "d \<noteq> LF" by auto
    with Suc.IH[of t] Cons show ?thesis by simp
  qed
qed

lemma git_suffix_matches:
  assumes "LF \<notin> set t"
  shows "matches (Cat (Opt (Group ''5'' (pat ''.git''))) Eos) (t, g) =
     (if \<exists>x. t = x # ''git'' then [([], (''5'', t) # g)] else []) @
     (if t = [] then [([], g)] else [])"
proof -
  consider "t = []" | a where "t = [a]" | a b where "t = [a, b]" | a b c where "t = [a, b, c]"
    | a b c d where "t = [a, b, c, d]" | a b c d e r where "t = a # b # c # d # e # r"
    by (metis list.exhaust)
  then show ?thesis
  proof cases
    case 1
    then show ?thesis by simp
  next
    case 2
    with assms show ?thesis by auto
  next
    case 3
    with assms show ?thesis by auto
  next
    case 4
    with assms show ?thesis by auto
  next
    case 5
    with assms show ?thesis by auto
  next
    case 6
    with assms show ?thesis by auto
  qed
qed

lemma remainders_suffix: "t \<in> set (remainders s) \<Longrightarrow> \<exists>a. s = a @ t"
proof (induction s)
  case Nil
  then show ?case by simp
next
  case (Cons x s)
  then show ?case by (auto intro: exI[of _ "[]"])
qed

lemma concat_map_remainders_skip:
  "(\<And>t. t \<in> set (remainders (a @ b)) \<Longrightarrow> length b < length t \<Longrightarrow> G t = []) \<Longrightarrow>
   concat (map G (remainders (a @ b))) = concat (map G (remainders b))"
proof (induction a)
  case Nil
  then show ?case by simp
next
  case (Cons x a)
  have "G (x # a @ b) = []" using Cons.prems[of "x # a @ b"] by simp
  moreover have "concat (map G (remainders (a @ b))) = concat (map G (remainders b))"
    using Cons.prems by (intro Cons.IH) simp
  ultimately show ?case by simp
qed

lemma remainders_set: "t \<in> set (remainders s) \<Longrightarrow> set t \<subseteq> set s"
  using remainders_suffix by fastforce

lemma group_star_lazy_Dot:
  assumes "LF \<notin> set s"
  shows "matches (Cat (Group name (StarLazy Dot)) T) (s, g) =
     concat (map (\<lambda>t. matches T (t, (name, take (length s - length t) s) # g)) (remainders s))"
  using assms by (simp add: star_lazy_Dot comp_def)

lemma repos_matches:
  assumes "LF \<notin> set s"
  shows "matches (Cat (Group ''repos'' (StarLazy Dot)) (Cat (Opt (Group ''5'' (pat ''.git''))) Eos)) (s, g) =
     concat (map (\<lambda>t. (if \<exists>x. t = x # ''git''
                          then [([], (''5'', t) # (''repos'', take (length s - length t) s) # g)]
                          else []) @
                        (if t = [] then [([], (''repos'', take (length s - length t) s) # g)] else []))
               (remainders s))"
  unfolding group_star_lazy_Dot[OF assms]
proof (rule arg_cong[where f = concat], rule map_cong[OF refl])
  fix t assume "t \<in> set (remainders s)"
  then have "LF \<notin> set t" using remainders_set assms by blast
  then show "matches (Cat (Opt (Group ''5'' (pat ''.git''))) Eos)
                      (t, (''repos'', take (length s - length t) s) # g) =
       (if \<exists>x. t = x # ''git''
                      then [([], (''5'', t) # (''repos'', take (length s - length t) s) # g)]
                      else []) @
                    (if t = [] then [([], (''repos'', take (length s - length t) s) # g)] else [])"
    by (rule git_suffix_matches)
qed

lemma repos_plain:
  assumes "LF \<notin> set s" and "\<not> (\<exists>a x. s = a @ x # ''git'')"
  shows "matches (Cat (Group ''repos'' (StarLazy Dot)) (Cat (Opt (Group ''5'' (pat ''.git''))) Eos)) (s, g) =
           [([], (''repos'', s) # g)]"
proof -
  let ?G = "\<lambda>t. (if \<exists>x. t = x # ''git''
                          then [([], (''5'', t) # (''repos'', take (length s - length t) s) # g)]
                          else []) @
                        (if t = [] then [([], (''repos'', take (length s - length t) s) # g)] else [])"
  have skip: "?G t = []" if "t \<in> set (remainders (s @ []))" "length ([]::string) < length t" for t
  proof -
    from that(1) obtain a where "s = a @ t" using remainders_suffix by fastforce
    with assms(2) have "\<not> (\<exists>x. t = x # ''git'')" by blast
    moreover from that(2) have "t \<noteq> []" by auto
    ultimately show ?thesis by simp
  qed
  have "concat (map ?G (remainders (s @ []))) = concat (map ?G (remainders []))"
    by (rule concat_map_remainders_skip) (rule skip)
  then show ?thesis
    unfolding repos_matches[OF assms(1)] by simp
qed

lemma repos_dot_git:
  assumes "LF \<notin> set r"
  shows "\<exists>rest. matches (Cat (Group ''repos'' (StarLazy Dot)) (Cat (Opt (Group ''5'' (pat ''.git''))) Eos))
                  (r @ ''.git'', g) =
           ([], (''5'', ''.git'') # (''repos'', r) # g) # rest"
proof -
  let ?s = "r @ ''.git''"
  let ?G = "\<lambda>t. (if \<exists>x. t = x # ''git''
                          then [([], (''5'', t) # (''repos'', take (length ?s - length t) ?s) # g)]
                          else []) @
                        (if t = [] then [([], (''repos'', take (length ?s - length t) ?s) # g)] else [])"
  have lf: "LF \<notin> set ?s" using assms by simp
  have skip: "?G t = []" if "t \<in> set (remainders (r @ ''.git''))" "length ''.git'' < length t" for t
  proof -
    from that(2) have "\<not> (\<exists>x. t = x # ''git'')" "t \<noteq> []" by auto
    then show ?thesis by simp
  qed
  have e: "concat (map ?G (remainders (r @ ''.git''))) = concat (map ?G (remainders ''.git''))"
    by (rule concat_map_remainders_skip) (rule skip)
  have f: "concat (map ?G (remainders ''.git'')) =
             [([], (''5'', ''.git'') # (''repos'', r) # g), ([], (''repos'', r @ ''.git'') # g)]"
    by simp
  show ?thesis
    unfolding repos_matches[OF lf] e f by blast
qed

lemma star_greedy_subset:
  "q \<in> set (star_greedy (matches (NoneOf cs)) n p) \<Longrightarrow> set (fst q) \<subseteq> set (fst p)"
proof (induction n arbitrary: p)
  case 0
  then show ?case by simp
next
  case (Suc n)
  from Suc.prems consider "q = p"
    | p' where "p' \<in> set (matches (NoneOf cs) p)" "q \<in> set (star_greedy (matches (NoneOf cs)) n p')"
    by (auto simp del: matches.simps)
  then show ?case
  proof cases
    case 1
    then show ?thesis by simp
  next
    case 2
    from 2(1) have "set (fst p') \<subseteq> set (fst p)" by (cases "fst p") (auto split: if_splits)
    with Suc.IH[OF 2(2)] show ?thesis by blast
  qed
qed

lemma no_userinfo:
  assumes "CHR ''@'' \<notin> set s"
  shows "matches (userinfo n) (s, g) = []"
proof -
  have "matches (Lit CHR ''@'') q = []"
    if "q \<in> set (matches (Plus (NoneOf ''@'')) (s, g))" for q
  proof -
    from that obtain p' where p': "p' \<in> set (matches (NoneOf ''@'') (s, g))"
      and q: "q \<in> set (star_greedy (matches (NoneOf ''@'')) (length (fst p')) p')"
      unfolding matches.simps(8) by auto
    from p' have "set (fst p') \<subseteq> set s" by (cases s) (auto split: if_splits)
    with star_greedy_subset[OF q] assms have "CHR ''@'' \<notin> set (fst q)" by blast
    then show ?thesis by (cases "fst q") auto
  qed
  then have "matches (Cat (Plus (NoneOf ''@'')) (Lit CHR ''@'')) (s, g) = []"
    unfolding matches.simps(5) by (simp del: matches.simps)
  then show ?thesis by (simp add: userinfo_def del: matches.simps(5,8))
qed

lemma prefix_http:
  "CHR ''@'' \<notin> set s \<Longrightarrow>
   matches github_prefix_re (''http://github.com/'' @ s, g) = [(s, (''1'', ''http://github.com/'') # g)]"
  by (simp add: github_prefix_re_def no_userinfo)

lemma prefix_https:
  "CHR ''@'' \<notin> set s \<Longrightarrow>
   matches github_prefix_re (''https://github.com/'' @ s, g) = [(s, (''1'', ''https://github.com/'') # g)]"
  by (simp add: github_prefix_re_def no_userinfo)

lemma prefix_git:
  "matches github_prefix_re (''git://github.com/'' @ s, g) = [(s, (''1'', ''git://github.com/'') # g)]"
  by (simp add: github_prefix_re_def)

lemma prefix_ssh:
  "matches github_prefix_re (''git@github.com:'' @ s, g) = [(s, (''1'', ''git@github.com:'') # g)]"
  by (simp add: github_prefix_re_def)

lemma github_paths_of_match:
  assumes "matches github_prefix_re (u, []) = [(s, g)]"
    and "matches github_suffix_re (s, g) = ([], m) # rest"
    and "map_of m ''repos'' = Some r"
  shows "github_paths u = UrlList (eight_forms r)"
proof -
  have "matches github_re (u, []) = ([], m) # rest"
    unfolding github_re_def matches.simps(5) assms(1) using assms(2) by simp
  then have "re_match github_re u = Some m" by (simp add: re_match_def)
  then show ?thesis
    using assms(3) by (simp add: github_paths_def group_def str_of_def eight_forms_def)
qed

lemma suffix_plain:
  assumes "LF \<notin> set r" and "\<not> (\<exists>a x. r = a @ x # ''git'')"
  shows "matches github_suffix_re (r, g) = ([], (''repos'', r) # g) # []"
  unfolding github_suffix_re_def by (rule repos_plain[OF assms])

lemma suffix_dot_git:
  assumes "LF \<notin> set r"
  shows "\<exists>rest. matches github_suffix_re (r @ ''.git'', g) =
           ([], (''5'', ''.git'') # (''repos'', r) # g) # rest"
  unfolding github_suffix_re_def by (rule repos_dot_git[OF assms])

text \<open>Each of the eight forms of a plain path gives the list of the eight forms.\<close>

lemma github_paths_plain_forms:
  assumes "LF \<notin> set r" and "CHR ''@'' \<notin> set r" and "\<not> (\<exists>a x. r = a @ x # ''git'')"
    and "f \<in> set (eight_forms r)"
  shows "github_paths f = UrlList (eight_forms r)"
proof -
  have at: "CHR ''@'' \<notin> set (r @ ''.git'')" using assms(2) by simp
  have m1: "map_of ((''repos'', r) # g) ''repos'' = Some r" for g :: "(string \<times> string) list"
    by simp
  have m2: "map_of ((''5'', ''.git'') # (''repos'', r) # g) ''repos'' = Some r"
    for g :: "(string \<times> string) list"
    by simp
  have plain: "github_paths u = UrlList (eight_forms r)"
    if "matches github_prefix_re (u, []) = [(r, g)]" for u g
    by (rule github_paths_of_match[OF that suffix_plain[OF assms(1,3)] m1])
  have dotgit: "github_paths u = UrlList (eight_forms r)"
    if "matches github_prefix_re (u, []) = [(r @ ''.git'', g)]" for u g
  proof -
    from suffix_dot_git[OF assms(1), of g] obtain rest where
      "matches github_suffix_re (r @ ''.git'', g) = ([], (''5'', ''.git'') # (''repos'', r) # g) # rest"
      by blast
    from github_paths_of_match[OF that this m2] show ?thesis .
  qed
  have "f = ''http://github.com/'' @ r \<or> f = ''http://github.com/'' @ r @ ''.git''
    \<or> f = ''https://github.com/'' @ r \<or> f = ''https://github.com/'' @ r @ ''.git''
    \<or> f = ''git://github.com/'' @ r \<or> f = ''git://github.com/'' @ r @ ''.git''
    \<or> f = ''git@github.com:'' @ r \<or> f = ''git@github.com:'' @ r @ ''.git''"
    using assms(4) unfolding eight_forms_def
    by (simp only: set_simps insert_iff empty_iff simp_thms)
  note d = this
  have c1: "github_paths (''http://github.com/'' @ r) = UrlList (eight_forms r)"
    by (rule plain[OF prefix_http[OF assms(2)]])
  have c2: "github_paths (''http://github.com/'' @ r @ ''.git'') = UrlList (eight_forms r)"
    by (rule dotgit[OF prefix_http[OF at]])
  have c3: "github_paths (''https://github.com/'' @ r) = UrlList (eight_forms r)"
    by (rule plain[OF prefix_https[OF assms(2)]])
  have c4: "github_paths (''https://github.com/'' @ r @ ''.git'') = UrlList (eight_forms r)"
    by (rule dotgit[OF prefix_https[OF at]])
  have c5: "github_paths (''git://github.com/'' @ r) = UrlList (eight_forms r)"
    by (rule plain[OF prefix_git])
  have c6: "github_paths (''git://github.com/'' @ r @ ''.git'') = UrlList (eight_forms r)"
    by (rule dotgit[OF prefix_git])
  have c7: "github_paths (''git@github.com:'' @ r) = UrlList (eight_forms r)"
    by (rule plain[OF prefix_ssh])
  have c8: "github_paths (''git@github.com:'' @ r @ ''.git'') = UrlList (eight_forms r)"
    by (rule dotgit[OF prefix_ssh])
  from d show ?thesis
    by (elim disjE) (simp_all only: c1 c2 c3 c4 c5 c6 c7 c8)
qed

subsection \<open>Forms of a GitHub URL\<close>

lemma ends_in_git_iff:
  "(\<exists>a x. r = a @ x # ''git'') \<longleftrightarrow> (4 \<le> length r \<and> drop (length r - 3) r = ''git'')"
proof
  assume "\<exists>a x. r = a @ x # ''git''"
  then obtain a x where "r = a @ x # ''git''" by blast
  then show "4 \<le> length r \<and> drop (length r - 3) r = ''git''" by simp
next
  assume a: "4 \<le> length r \<and> drop (length r - 3) r = ''git''"
  then have "length r - 4 < length r" by arith
  from id_take_nth_drop[OF this]
  have "r = take (length r - 4) r @ r ! (length r - 4) # drop (Suc (length r - 4)) r" .
  moreover from a have "Suc (length r - 4) = length r - 3" by arith
  ultimately have "r = take (length r - 4) r @ r ! (length r - 4) # ''git''"
    using a by simp
  then show "\<exists>a x. r = a @ x # ''git''" by blast
qed

lemma startswith_Cons:
  "startswith u (c # p) \<longleftrightarrow> (\<exists>t. u = c # t \<and> startswith t p)"
  by (cases u) (auto simp: startswith_def)

lemma pat_no_match:
  assumes "CHR ''.'' \<notin> set p" and "\<not> startswith u p"
  shows "matches (pat (p @ q)) (u, g) = []"
  using assms
proof (induction p arbitrary: u g)
  case Nil
  then show ?case by (simp add: startswith_def)
next
  case (Cons c p)
  show ?case
  proof (cases u)
    case Nil
    then show ?thesis by simp
  next
    case u: (Cons d t)
    show ?thesis
    proof (cases "d = c")
      case True
      with u Cons.prems have "\<not> startswith t p" "CHR ''.'' \<notin> set p" "c \<noteq> CHR ''.''"
        by (auto simp: startswith_Cons)
      with Cons.IH[of t g] u True show ?thesis by simp
    next
      case False
      with u Cons.prems show ?thesis by auto
    qed
  qed
qed

lemma no_scheme_no_match:
  assumes "\<not> startswith u ''http://''" and "\<not> startswith u ''https://''"
    and "\<not> startswith u ''git://''" and "\<not> startswith u ''git@''"
  shows "matches github_prefix_re (u, g) = []"
proof -
  have a: "matches (pat ''http://'') (u, g) = []"
    using pat_no_match[where p = "''http://''" and q = "[]" and u = u and g = g] assms(1)
    by (simp del: pat.simps matches.simps)
  have b: "matches (pat ''https://'') (u, g) = []"
    using pat_no_match[where p = "''https://''" and q = "[]" and u = u and g = g] assms(2)
    by (simp del: pat.simps matches.simps)
  have c: "matches (pat ''git://github.com/'') (u, g) = []"
    using pat_no_match[where p = "''git://''" and q = "''github.com/''" and u = u and g = g] assms(3)
    by (simp del: pat.simps matches.simps)
  have d: "matches (pat ''git@github.com:'') (u, g) = []"
    using pat_no_match[where p = "''git@''" and q = "''github.com:''" and u = u and g = g] assms(4)
    by (simp del: pat.simps matches.simps)
  have e: "matches (Cat (pat ''http://'') R) (u, g) = []" for R
    unfolding matches.simps(5) a by simp
  have f: "matches (Cat (pat ''https://'') R) (u, g) = []" for R
    unfolding matches.simps(5) b by simp
  show ?thesis
    unfolding github_prefix_re_def matches.simps(10) matches.simps(6) e f
    by (simp add: c d del: pat.simps matches.simps)
qed

lemma no_scheme_bare:
  assumes "\<not> startswith u ''http://''" and "\<not> startswith u ''https://''"
    and "\<not> startswith u ''git://''" and "\<not> startswith u ''git@''"
  shows "github_paths u = Url u"
proof -
  have "matches github_re (u, []) = []"
    unfolding github_re_def matches.simps(5) no_scheme_no_match[OF assms] by simp
  then show ?thesis by (simp add: github_paths_def re_match_def)
qed

text \<open>
  Claim C8, as amended. For a repository path without a newline and without \<open>@\<close>, whose end
  is not a character followed by \<open>git\<close>, each of its eight forms (\<open>http\<close>, \<open>https\<close>, \<open>git\<close> and ssh
  shorthand, each without and with \<open>.git\<close>) is expanded to the list of all eight forms of that
  path. A URL that the pattern does not match, and so every URL that starts with none of
  \<open>http://\<close>, \<open>https://\<close>, \<open>git://\<close> and \<open>git@\<close>, is returned as it is: a string, and not a list of
  one element.
\<close>

theorem github_paths_cases:
  "(LF \<notin> set r \<and> CHR ''@'' \<notin> set r \<and> \<not> (4 \<le> length r \<and> drop (length r - 3) r = ''git'') \<and>
    f \<in> set (eight_forms r) \<longrightarrow>
      github_paths f = UrlList (eight_forms r)) \<and>
   (\<not> startswith u ''http://'' \<and> \<not> startswith u ''https://'' \<and> \<not> startswith u ''git://'' \<and>
    \<not> startswith u ''git@'' \<longrightarrow> github_paths u = Url u) \<and>
   (re_match github_re url = None \<longrightarrow> github_paths url = Url url)"
proof (intro conjI impI)
  assume a: "LF \<notin> set r \<and> CHR ''@'' \<notin> set r \<and> \<not> (4 \<le> length r \<and> drop (length r - 3) r = ''git'') \<and>
    f \<in> set (eight_forms r)"
  from a have 1: "LF \<notin> set r" by (rule conjunct1)
  from a have 2: "CHR ''@'' \<notin> set r" by (rule conjunct2[THEN conjunct1])
  from a have 3: "\<not> (4 \<le> length r \<and> drop (length r - 3) r = ''git'')"
    by (rule conjunct2[THEN conjunct2, THEN conjunct1])
  from a have 4: "f \<in> set (eight_forms r)" by (rule conjunct2[THEN conjunct2, THEN conjunct2])
  from 3 have 5: "\<not> (\<exists>a x. r = a @ x # ''git'')" unfolding ends_in_git_iff .
  show "github_paths f = UrlList (eight_forms r)"
    by (rule github_paths_plain_forms[OF 1 2 5 4])
next
  assume a: "\<not> startswith u ''http://'' \<and> \<not> startswith u ''https://'' \<and> \<not> startswith u ''git://'' \<and>
    \<not> startswith u ''git@''"
  show "github_paths u = Url u"
    by (rule no_scheme_bare[OF a[THEN conjunct1] a[THEN conjunct2, THEN conjunct1]
          a[THEN conjunct2, THEN conjunct2, THEN conjunct1]
          a[THEN conjunct2, THEN conjunct2, THEN conjunct2]])
next
  assume "re_match github_re url = None"
  then show "github_paths url = Url url" by (simp add: github_paths_def)
qed

theorem github_paths_cases_witness:
  "LF \<notin> set ''Khan/rbtools'' \<and> CHR ''@'' \<notin> set ''Khan/rbtools'' \<and>
   drop (length ''Khan/rbtools'' - 3) ''Khan/rbtools'' = ''ols'' \<and>
   ''git@github.com:Khan/rbtools.git'' \<in> set (eight_forms ''Khan/rbtools'') \<and>
   github_paths ''git@github.com:Khan/rbtools.git'' =
     UrlList [''http://github.com/Khan/rbtools'', ''http://github.com/Khan/rbtools.git'',
              ''https://github.com/Khan/rbtools'', ''https://github.com/Khan/rbtools.git'',
              ''git://github.com/Khan/rbtools'', ''git://github.com/Khan/rbtools.git'',
              ''git@github.com:Khan/rbtools'', ''git@github.com:Khan/rbtools.git''] \<and>
   github_paths ''/srv/git/project.git'' = Url ''/srv/git/project.git'' \<and>
   re_match github_re ''https://example.org/user/repo'' = None \<and>
   github_paths ''https://example.org/user/repo'' = Url ''https://example.org/user/repo''"
proof -
  let ?r = "''Khan/rbtools''"
  let ?f = "''git@github.com:Khan/rbtools.git''"
  let ?u = "''/srv/git/project.git''"
  let ?url = "''https://example.org/user/repo''"
  have h1: "LF \<notin> set ?r" by code_simp
  have h2: "CHR ''@'' \<notin> set ?r" by code_simp
  have h3': "drop (length ?r - 3) ?r = ''ols''" by code_simp
  have h3: "\<not> (4 \<le> length ?r \<and> drop (length ?r - 3) ?r = ''git'')" unfolding h3' by simp
  have h4: "?f \<in> set (eight_forms ?r)" by code_simp
  have h5: "\<not> startswith ?u ''http://'' \<and> \<not> startswith ?u ''https://'' \<and> \<not> startswith ?u ''git://'' \<and>
    \<not> startswith ?u ''git@''" by code_simp
  have h6: "re_match github_re ?url = None" by code_simp
  have e: "eight_forms ?r =
     [''http://github.com/Khan/rbtools'', ''http://github.com/Khan/rbtools.git'',
      ''https://github.com/Khan/rbtools'', ''https://github.com/Khan/rbtools.git'',
      ''git://github.com/Khan/rbtools'', ''git://github.com/Khan/rbtools.git'',
      ''git@github.com:Khan/rbtools'', ''git@github.com:Khan/rbtools.git'']"
    by code_simp
  note t = github_paths_cases[of ?r ?f ?u ?url]
  note c1 = t[THEN conjunct1, THEN mp, OF conjI[OF h1 conjI[OF h2 conjI[OF h3 h4]]], unfolded e]
  note c2 = t[THEN conjunct2, THEN conjunct1, THEN mp, OF h5]
  note c3 = t[THEN conjunct2, THEN conjunct2, THEN mp, OF h6]
  show ?thesis
    by (intro conjI) (rule h1 h2 h3' h4 c1 c2 h6 c3)+
qed

text \<open>
  Claim C8 as stated fails: for a URL that does not match, the result is the string and not
  a collection holding it.
\<close>

theorem github_paths_bare_url_counterexample:
  "re_match github_re ''https://example.org/user/repo'' = None \<and>
   github_paths ''https://example.org/user/repo'' = Url ''https://example.org/user/repo'' \<and>
   github_paths ''https://example.org/user/repo'' \<noteq> UrlList [''https://example.org/user/repo'']"
  by code_simp

text \<open>The \<open>.\<close> of \<open>(.git)?\<close> is a wildcard, so the last four characters of a path that ends in
  \<open>git\<close> are taken for the suffix.\<close>

lemma github_paths_dot_git_examples:
  "github_paths ''https://github.com/user/legit'' =
     UrlList [''http://github.com/user/l'', ''http://github.com/user/l.git'',
              ''https://github.com/user/l'', ''https://github.com/user/l.git'',
              ''git://github.com/user/l'', ''git://github.com/user/l.git'',
              ''git@github.com:user/l'', ''git@github.com:user/l.git'']"
  by code_simp

end
